theory Spec2Isabelle
  imports
    Complex_Main
    "HOL-Library.Product_Lexorder"
    "HOL-Library.List_Lexorder"
    "HOL-Library.Char_ord"
    "HOL-Library.Log_Nat"
begin

section \<open>The land-use compatibility engine (src/analysis_engine.py)\<close>

text \<open>
  The engine is a pipeline over data frames. A frame is modelled column-wise, as pandas
  stores it: the geometry column, the coordinate reference system, and the attribute
  columns by name, each a list with one value per parcel. Attribute values are null
  (None/NaN), a string or an integer. Attribute columns are named differently from the
  geometry column and from the suffixed names the spatial join creates, and the land-use
  column is not the column \<open>unique_id\<close>. Land uses and matrix labels are compared as
  values, as pandas merges columns of strings.

  The geometric library (shapely and pyproj, reached through geopandas) is not part of
  the repository: its four operations the engine calls are parameters of the model.
  A score is the number read from a cell of the CSV file, modelled by the rational it
  denotes: an integer of a column that pandas reads as int64, else the float64 read; a
  blank cell (NaN) is \<open>None\<close>. Where pandas turns a column of integers into
  float64, the model rounds as the conversion does.
\<close>

datatype val = VNull | VStr string | VInt int

fun is_text :: "val \<Rightarrow> bool" where
  "is_text (VInt i) = False"
| "is_text v = True"

record crs_info =
  crs_name :: string
  is_geographic :: bool

record 'g gdf =
  geometry :: "'g list"
  columns :: "(string \<times> val list) list"
  crs :: "crs_info option"

record 'g geolib =
  buffer :: "real \<Rightarrow> 'g \<Rightarrow> 'g"
  intersects :: "'g \<Rightarrow> 'g \<Rightarrow> bool"
  to_crs :: "crs_info \<Rightarrow> crs_info \<Rightarrow> 'g \<Rightarrow> 'g"
  estimate_utm_crs :: "'g list \<Rightarrow> crs_info"

text \<open>
  The compatibility matrix as \<open>pd.read_csv(matrix_path, index_col=0)\<close> returns it: the
  row labels (first CSV column), the column labels (CSV header, always strings) and the
  cells, row by row.
\<close>

record matrix =
  row_labels :: "val list"
  col_labels :: "string list"
  cells :: "rat option list list"

subsection \<open>Section 3: adjacency (lines 173-182)\<close>

text \<open>Lines 173-174: a column \<open>unique_id\<close> is synthesised only when none is supplied.\<close>

definition has_column :: "'g gdf \<Rightarrow> string \<Rightarrow> bool" where
  "has_column g name = (name \<in> set (map fst (columns g)))"

definition column :: "'g gdf \<Rightarrow> string \<Rightarrow> val list" where
  "column g name = (case map_of (columns g) name of None \<Rightarrow> [] | Some vs \<Rightarrow> vs)"

definition with_unique_id :: "'g gdf \<Rightarrow> 'g gdf" where
  "with_unique_id g =
     (if has_column g ''unique_id'' then g
      else g\<lparr>columns := columns g @
             [(''unique_id'', map (\<lambda>i. VInt (int i)) [0..<length (geometry g)])]\<rparr>)"

text \<open>
  The identifiers of a run are the supplied ones or those of line 174. The design takes
  them to be unique within the run (section 6); a null identifier would be no group key
  at line 207. The identifiers of line 174 are always so.
\<close>

definition unique_ids :: "'g gdf \<Rightarrow> bool" where
  "unique_ids g =
     (distinct (column (with_unique_id g) ''unique_id'') \<and>
      VNull \<notin> set (column (with_unique_id g) ''unique_id'') \<and>
      length (column (with_unique_id g) ''unique_id'') = length (geometry g))"

text \<open>
  Lines 177-182: \<open>sjoin(gdf, gdf_buffered, how="inner", predicate="intersects")\<close> keeps
  every (left, right) pair of rows whose left geometry intersects the right buffered
  geometry; line 181 drops the pairs with equal identifiers and line 182 keeps the left
  identifier, the left land use and the right identifier. A parcel row is given here
  as (identifier, land use, geometry). Identifiers are compared as values; how pandas
  compares two missing identifiers depends on the type of the column, and the statements
  on scores below are about identifiers that are not missing.
\<close>

definition adjacent_pairs ::
  "'g geolib \<Rightarrow> real \<Rightarrow> (val \<times> val \<times> 'g) list \<Rightarrow> (val \<times> val \<times> val) list" where
  "adjacent_pairs lib adjacency_distance rows =
     [(u, c, u'). (u, c, g) \<leftarrow> rows, (u', c', g') \<leftarrow> rows,
                  intersects lib g (buffer lib adjacency_distance g'), u \<noteq> u']"

subsection \<open>Section 4: scoring and aggregation (lines 188-207)\<close>

text \<open>
  Lines 188-189: \<open>stack()\<close> lists the cells row by row and leaves the blank ones out;
  \<open>reset_index()\<close> turns the two labels into the columns \<open>use_1\<close> and \<open>use_2\<close>.
\<close>

definition stack_row :: "string list \<Rightarrow> val \<Rightarrow> rat option list \<Rightarrow> (val \<times> val \<times> rat) list" where
  "stack_row cols r vs = [(r, VStr c, s). (c, Some s) \<leftarrow> zip cols vs]"

definition matrix_long :: "matrix \<Rightarrow> (val \<times> val \<times> rat) list" where
  "matrix_long m =
     concat (map (\<lambda>(r, vs). stack_row (col_labels m) r vs) (zip (row_labels m) (cells m)))"

text \<open>
  A left merge keeps every left row: once per matching right row, or once with a
  missing value when no right row matches.
\<close>

definition left_merge :: "'b list \<Rightarrow> 'b \<Rightarrow> 'b list" where
  "left_merge ms missing = (if ms = [] then [missing] else ms)"

text \<open>Lines 192-195: the land use of the right parcel of each pair.\<close>

definition merge_right_uses ::
  "(val \<times> val \<times> val) list \<Rightarrow> (val \<times> val) list \<Rightarrow> (val \<times> val \<times> val \<times> val) list" where
  "merge_right_uses pairs right_uses =
     [(u, c, u', c'). (u, c, u') \<leftarrow> pairs,
                      c' \<leftarrow> left_merge [cr. (cr, ur) \<leftarrow> right_uses, ur = u'] VNull]"

text \<open>Lines 198-204: the score lookup, on exactly (left land use, right land use).\<close>

definition lookup :: "(val \<times> val \<times> rat) list \<Rightarrow> val \<Rightarrow> val \<Rightarrow> rat list" where
  "lookup ml c c' = [s. (use_1, use_2, s) \<leftarrow> ml, use_1 = c \<and> use_2 = c']"

definition scored_pairs ::
  "(val \<times> val \<times> val \<times> val) list \<Rightarrow> (val \<times> val \<times> rat) list \<Rightarrow> (val \<times> rat option) list" where
  "scored_pairs pairs ml =
     [(u, s). (u, c, u', c') \<leftarrow> pairs, s \<leftarrow> left_merge (map Some (lookup ml c c')) None]"

text \<open>
  Before it joins, the merge of line 198 compares the types of each pair of key columns:
  pandas raises ValueError when one column of a pair holds text and the other numbers,
  unless one of the two frames has no row. The land-use column of a string field holds
  text and nulls. The column labels of the matrix (\<open>use_2\<close>) are always text; its row
  labels (\<open>use_1\<close>) are numbers when the first CSV column has no text in it, which
  \<open>read_csv\<close> reads as int64, or as float64 when a label is blank.
\<close>

definition text_column :: "val list \<Rightarrow> bool" where
  "text_column vs = list_all is_text vs"

definition text_index :: "val list \<Rightarrow> bool" where
  "text_index labels = (list_all is_text labels \<and> list_ex (\<lambda>v. v \<noteq> VNull) labels)"

definition incompatible_keys :: "val list \<Rightarrow> val list \<Rightarrow> bool" where
  "incompatible_keys uses labels = (\<not> text_column uses \<or> \<not> text_index labels)"

text \<open>
  Line 207: \<open>groupby('unique_id_left')['score'].min()\<close>. The group keys are the non-null
  identifiers, in ascending order; the minimum of a group skips the missing scores and
  is itself missing when the group has no score.
\<close>

definition skipna_min :: "rat option list \<Rightarrow> rat option" where
  "skipna_min xs = (case [s. Some s \<leftarrow> xs] of [] \<Rightarrow> None | y # ys \<Rightarrow> Some (fold min ys y))"

fun val_key :: "val \<Rightarrow> nat \<times> int \<times> string" where
  "val_key VNull = (0, 0, [])"
| "val_key (VInt i) = (1, i, [])"
| "val_key (VStr s) = (2, 0, s)"

definition group_keys :: "val list \<Rightarrow> val list" where
  "group_keys ks = sort_key val_key (remdups (filter (\<lambda>k. k \<noteq> VNull) ks))"

definition final_scores :: "(val \<times> rat option) list \<Rightarrow> (val \<times> rat option) list" where
  "final_scores sp =
     map (\<lambda>u. (u, skipna_min [s. (u', s) \<leftarrow> sp, u' = u])) (group_keys (map fst sp))"

subsection \<open>Section 5: the score column (lines 211-214)\<close>

text \<open>
  Line 211 merges the minima back on \<open>unique_id\<close> (how="left": a parcel without a group
  gets a missing value), line 213 fills the missing values with 5, line 214 casts to
  Int64.

  The type of the score column decides what the cast does. The column is int64, and the
  cast keeps every value, only when no missing value and no float has entered it: every
  cell of the matrix is an integer of 64 bits (line 188), every pair has found a score
  (line 198) and every parcel has a minimum (line 211). Otherwise the column is float64
  from the first of these lines on: each integer in it has become the nearest float64
  (ties go to the even mantissa), and the cast raises TypeError on a float that is not
  an integer of 64 bits. Rounding to the nearest float is monotone, so it commutes with
  the minimum of line 207, and the model rounds once, after the minimum.
\<close>

datatype exn = KeyError string | ValueError | TypeError

definition float64_of_int :: "int \<Rightarrow> int" where
  "float64_of_int n =
     (if \<bar>n\<bar> \<le> 2 ^ 53 then n
      else (let e = nat (bitlen \<bar>n\<bar> - 53);
                q = \<bar>n\<bar> div 2 ^ e;
                r = \<bar>n\<bar> mod 2 ^ e;
                q' = (if 2 * r > 2 ^ e \<or> (2 * r = 2 ^ e \<and> odd q) then q + 1 else q)
            in sgn n * q' * 2 ^ e))"

definition to_float64 :: "rat \<Rightarrow> rat" where
  "to_float64 x = (if rat_of_int \<lfloor>x\<rfloor> = x then rat_of_int (float64_of_int \<lfloor>x\<rfloor>) else x)"

definition merge_final :: "(val \<times> rat option) list \<Rightarrow> val \<Rightarrow> rat option" where
  "merge_final fs u = (case [s. (k, s) \<leftarrow> fs, k = u] of [] \<Rightarrow> None | s # _ \<Rightarrow> s)"

definition fillna :: "rat \<Rightarrow> rat option \<Rightarrow> rat" where
  "fillna d x = (case x of None \<Rightarrow> d | Some s \<Rightarrow> s)"

definition is_int64 :: "rat \<Rightarrow> bool" where
  "is_int64 x = (rat_of_int \<lfloor>x\<rfloor> = x \<and> - (2 ^ 63) \<le> x \<and> x < 2 ^ 63)"

definition astype_Int64 :: "rat list \<Rightarrow> exn + int list" where
  "astype_Int64 xs = (if list_all is_int64 xs then Inr (map floor xs) else Inl TypeError)"

definition int64_matrix :: "matrix \<Rightarrow> bool" where
  "int64_matrix m =
     list_all (list_all (\<lambda>v. case v of None \<Rightarrow> False | Some s \<Rightarrow> is_int64 s)) (cells m)"

text \<open>
  The scores of lines 173-214 for a frame that already carries its identifiers: the
  value of \<open>gdf['compat_score']\<close> after line 214, one per parcel, or the exception:
  ValueError from the merge of line 198, KeyError from line 213 when the input already
  has a column \<open>compat_score\<close> (the merge of line 211 then renames both), TypeError
  from the cast of line 214.
\<close>

definition parcel_rows :: "'g gdf \<Rightarrow> string \<Rightarrow> (val \<times> val \<times> 'g) list" where
  "parcel_rows g land_use_column =
     zip (column g ''unique_id'') (zip (column g land_use_column) (geometry g))"

definition right_uses :: "'g gdf \<Rightarrow> string \<Rightarrow> (val \<times> val) list" where
  "right_uses g land_use_column = zip (column g land_use_column) (column g ''unique_id'')"

definition raw_scores ::
  "'g geolib \<Rightarrow> real \<Rightarrow> 'g gdf \<Rightarrow> string \<Rightarrow> matrix \<Rightarrow> rat option list" where
  "raw_scores lib adjacency_distance g land_use_column compatibility_matrix =
     (let pairs = adjacent_pairs lib adjacency_distance (parcel_rows g land_use_column);
          pairs' = merge_right_uses pairs (right_uses g land_use_column);
          sp = scored_pairs pairs' (matrix_long compatibility_matrix);
          fs = final_scores sp
      in map (merge_final fs) (column g ''unique_id''))"

definition compat_score ::
  "'g geolib \<Rightarrow> real \<Rightarrow> 'g gdf \<Rightarrow> string \<Rightarrow> matrix \<Rightarrow> exn + int list" where
  "compat_score lib adjacency_distance g land_use_column compatibility_matrix =
     (let pairs = merge_right_uses
                    (adjacent_pairs lib adjacency_distance (parcel_rows g land_use_column))
                    (right_uses g land_use_column);
          ml = matrix_long compatibility_matrix;
          raw = raw_scores lib adjacency_distance g land_use_column compatibility_matrix
      in if pairs \<noteq> [] \<and> ml \<noteq> [] \<and>
            incompatible_keys (column g land_use_column) (row_labels compatibility_matrix)
         then Inl ValueError
         else if has_column g ''compat_score'' then Inl (KeyError ''compat_score'')
         else if int64_matrix compatibility_matrix \<and>
                 list_all (\<lambda>(u, s). s \<noteq> None) (scored_pairs pairs ml) \<and>
                 list_all (\<lambda>s. s \<noteq> None) raw
              then Inr (map (\<lambda>s. \<lfloor>fillna 5 s\<rfloor>) raw)
              else astype_Int64 (map (fillna 5) (map (map_option to_float64) raw)))"

subsection \<open>The summary reports (generate_reports, lines 79-93)\<close>

text \<open>
  Lines 79-81: \<open>value_counts().sort_index()\<close> counts the parcels of each score that
  occurs, in ascending order of the score; the percentage is taken over all parcels;
  \<open>reindex(range(1, 6), fill_value=0)\<close> keeps exactly the rows 1 to 5 and fills the
  rows that were absent with 0.
\<close>

definition value_counts :: "int list \<Rightarrow> (int \<times> nat) list" where
  "value_counts xs = map (\<lambda>v. (v, count_list xs v)) (sort (remdups xs))"

definition reindex :: "(int \<times> 'r) list \<Rightarrow> int list \<Rightarrow> 'r \<Rightarrow> (int \<times> 'r) list" where
  "reindex rows idx fill_value =
     map (\<lambda>i. (i, case map_of rows i of None \<Rightarrow> fill_value | Some r \<Rightarrow> r)) idx"

definition overall_summary :: "int list \<Rightarrow> (int \<times> nat \<times> rat) list" where
  "overall_summary scores =
     (let parcel_count = value_counts scores;
          total = sum_list (map snd parcel_count);
          with_percentage = map (\<lambda>(v, c). (v, c, of_nat c / of_nat total * 100)) parcel_count
      in reindex with_percentage [1..5] (0, 0))"

text \<open>
  Lines 87-93: the parcels are counted by (land use, score), parcels with a null land
  use being left out by \<open>groupby\<close>; \<open>unstack(fill_value=0)\<close> makes one row per land use
  and one column per score that occurs. The loop appends a column of zeros for each of
  the scores 1 to 5 that has none, line 92 orders the columns, line 93 adds the row
  sums. The table is kept column-wise: the row labels, the score columns, each with
  one count per row, and the totals.
\<close>

record detailed_table =
  land_uses :: "val list"
  score_columns :: "(int \<times> nat list) list"
  total_parcels :: "nat list"

definition unstack :: "(val \<times> int) list \<Rightarrow> val list \<times> (int \<times> nat list) list" where
  "unstack keys =
     (let rows = group_keys (map fst keys)
      in (rows, map (\<lambda>s. (s, map (\<lambda>c. count_list keys (c, s)) rows))
                    (sort (remdups (map snd keys)))))"

definition ensure_column :: "nat \<Rightarrow> int \<Rightarrow> (int \<times> nat list) list \<Rightarrow> (int \<times> nat list) list" where
  "ensure_column n score t =
     (if score \<in> set (map fst t) then t else t @ [(score, replicate n 0)])"

definition detailed_summary :: "val list \<Rightarrow> int list \<Rightarrow> detailed_table" where
  "detailed_summary uses scores =
     (let (rows, t) = unstack (filter (\<lambda>(c, s). c \<noteq> VNull) (zip uses scores));
          t = fold (ensure_column (length rows)) [1..5] t;
          t = sort_key fst t
      in \<lparr>land_uses = rows, score_columns = t,
          total_parcels = map (\<lambda>i. sum_list (map (\<lambda>(s, col). col ! i) t)) [0..<length rows]\<rparr>)"

text \<open>
  The reports are made from the scored frame of the run, which has the land-use column
  and the column \<open>compat_score\<close>, of the integers of line 214.
\<close>

fun int_of_val :: "val \<Rightarrow> int" where
  "int_of_val (VInt i) = i"
| "int_of_val _ = 0"

record reports =
  overall :: "(int \<times> nat \<times> rat) list"
  detailed :: detailed_table

definition generate_reports :: "'g gdf \<Rightarrow> string \<Rightarrow> reports" where
  "generate_reports g land_use_col =
     (let scores = map int_of_val (column g ''compat_score'')
      in \<lparr>overall = overall_summary scores,
          detailed = detailed_summary (column g land_use_col) scores\<rparr>)"

subsection \<open>The run (run_analysis, lines 98-225)\<close>

text \<open>
  The files are read outside the model: \<open>parcels_file\<close> is the frame read from the
  parcel file, or \<open>None\<close> when it cannot be read (a .gdb path, a missing file, a read
  error: lines 131-147); \<open>matrix_file\<close> is the matrix read from the CSV file, or \<open>None\<close>
  when the file does not exist (lines 165-167). What the run writes is returned: the
  scored frame of line 218 and the two reports. Of the printed lines the model keeps
  the five stage banners, the two warnings and the fatal errors. The merge of line 198
  raises before the banner of stage 5 (line 210), lines 213 and 214 after it.
\<close>

datatype fatal = Could_not_read | Column_not_found string | Matrix_not_found

datatype event = Stage nat | Warning_crs_undefined | Warning_crs_geographic | Fatal_error fatal

record 'g artifacts =
  scored_parcels :: "'g gdf"
  summaries :: reports

datatype 'g result = is_Fatal: Fatal fatal | is_Raised: Raised exn | is_Completed: Completed "'g artifacts"

text \<open>Lines 155-161: an undefined system is only reported; a geographic one is re-projected.\<close>

definition check_crs :: "'g geolib \<Rightarrow> 'g gdf \<Rightarrow> event list \<times> 'g gdf" where
  "check_crs lib g =
     (case crs g of
        None \<Rightarrow> ([Warning_crs_undefined], g)
      | Some c \<Rightarrow>
          if is_geographic c
          then (let utm = estimate_utm_crs lib (geometry g)
                in ([Warning_crs_geographic],
                    g\<lparr>geometry := map (to_crs lib c utm) (geometry g), crs := Some utm\<rparr>))
          else ([], g))"

definition add_column :: "'g gdf \<Rightarrow> string \<Rightarrow> val list \<Rightarrow> 'g gdf" where
  "add_column g name vs = g\<lparr>columns := columns g @ [(name, vs)]\<rparr>"

definition drop_column :: "'g gdf \<Rightarrow> string \<Rightarrow> 'g gdf" where
  "drop_column g name = g\<lparr>columns := filter (\<lambda>(n, vs). n \<noteq> name) (columns g)\<rparr>"

definition run_analysis ::
  "'g geolib \<Rightarrow> 'g gdf option \<Rightarrow> matrix option \<Rightarrow> string \<Rightarrow> real \<Rightarrow> event list \<times> 'g result" where
  "run_analysis lib parcels_file matrix_file land_use_column adjacency_distance =
     (case parcels_file of
        None \<Rightarrow> ([Stage 1, Fatal_error Could_not_read], Fatal Could_not_read)
      | Some gdf0 \<Rightarrow>
          if \<not> has_column gdf0 land_use_column
          then ([Stage 1, Fatal_error (Column_not_found land_use_column)],
                Fatal (Column_not_found land_use_column))
          else
            (let (warnings, gdf1) = check_crs lib gdf0
             in case matrix_file of
                  None \<Rightarrow> (Stage 1 # warnings @ [Stage 2, Fatal_error Matrix_not_found],
                            Fatal Matrix_not_found)
                | Some compatibility_matrix \<Rightarrow>
                    (let gdf2 = with_unique_id gdf1;
                         printed = Stage 1 # warnings @ [Stage 2, Stage 3, Stage 4]
                     in case compat_score lib adjacency_distance gdf2 land_use_column
                               compatibility_matrix of
                          Inl e \<Rightarrow> (if e = ValueError then printed else printed @ [Stage 5], Raised e)
                        | Inr scores \<Rightarrow>
                            (let gdf3 = drop_column
                                          (add_column gdf2 ''compat_score'' (map VInt scores))
                                          ''unique_id''
                             in (printed @ [Stage 5],
                                 Completed \<lparr>scored_parcels = gdf3,
                                            summaries = generate_reports gdf3 land_use_column\<rparr>)))))"

subsection \<open>Specification of the per-parcel score\<close>

text \<open>
  Specification (sections 4.3 and 4.4 of the design): the resolved scores of the parcel
  in row \<open>i\<close> are the scores the matrix records for (land use of \<open>i\<close>, land use of \<open>j\<close>),
  over all other parcels \<open>j\<close> whose buffered geometry the geometry of \<open>i\<close> intersects.
  The pipeline above is compared with this list.
\<close>

definition neighbours :: "'g geolib \<Rightarrow> real \<Rightarrow> 'g gdf \<Rightarrow> nat \<Rightarrow> nat list" where
  "neighbours lib d g i =
     [j. j \<leftarrow> [0..<length (geometry g)], j \<noteq> i,
         intersects lib (geometry g ! i) (buffer lib d (geometry g ! j))]"

definition resolved_scores ::
  "'g geolib \<Rightarrow> real \<Rightarrow> 'g gdf \<Rightarrow> string \<Rightarrow> matrix \<Rightarrow> nat \<Rightarrow> rat list" where
  "resolved_scores lib d g lu m i =
     concat (map (\<lambda>j. lookup (matrix_long m) (column g lu ! i) (column g lu ! j))
                 (neighbours lib d g i))"

subsection \<open>The geometry of the design\<close>

text \<open>
  Modelled from the spec: the buffer and the intersection test are operations of the
  geometric library, which is not code of the repository. Section 4.1 of the design
  gives the proximity region of a geometry and a distance \<open>d\<close> as the Minkowski
  expansion of the geometry by \<open>d\<close>: the points at distance at most \<open>d\<close> from
  a point of the geometry. Section 4.2 tests whether a geometry and a buffered region
  intersect, that is, share a point. A geometry is the set of its points in a metric
  space; the other operations of the library are left as they are.
\<close>

definition minkowski_buffer :: "real \<Rightarrow> 'p::metric_space set \<Rightarrow> 'p set" where
  "minkowski_buffer d A = {x. \<exists>a. a \<in> A \<and> dist a x \<le> d}"

definition regions_intersect :: "'p set \<Rightarrow> 'p set \<Rightarrow> bool" where
  "regions_intersect A B = (\<exists>x. x \<in> A \<and> x \<in> B)"

definition spec_geometry :: "'p::metric_space set geolib \<Rightarrow> 'p set geolib" where
  "spec_geometry lib = lib\<lparr>buffer := minkowski_buffer, intersects := regions_intersect\<rparr>"

subsection \<open>Example data\<close>

text \<open>
  A one-dimensional instance of the geometric operations: a parcel is a closed interval,
  the buffer widens it on both sides, two intervals intersect when they share a point,
  and re-projection shifts the coordinates by a false easting.
\<close>

definition line_lib :: "(real \<times> real) geolib" where
  "line_lib = \<lparr>buffer = (\<lambda>d (lo, hi). (lo - d, hi + d)),
               intersects = (\<lambda>(a, b) (c, d). a \<le> d \<and> c \<le> b),
               to_crs = (\<lambda>src dst (lo, hi). (lo + 500000, hi + 500000)),
               estimate_utm_crs = (\<lambda>gs. \<lparr>crs_name = ''WGS 84 / UTM zone 39N'',
                                          is_geographic = False\<rparr>)\<rparr>"

text \<open>
  Six parcels: parcel 0 (use A) has the neighbours 1 (B), 2 (C) and 3 (D); parcel 1 has
  the neighbours 0 and 4 (E, a use the matrix does not know); parcel 5 has no neighbour.
  In the matrix the cell (C, A) is blank.
\<close>

definition ex_parcels :: "(real \<times> real) gdf" where
  "ex_parcels = \<lparr>geometry = [(10, 20), (0, 9.95), (20.05, 30), (12, 13), (-10, -0.05), (100, 101)],
                 columns = [(''use'', [VStr ''A'', VStr ''B'', VStr ''C'', VStr ''D'', VStr ''E'', VStr ''A''])],
                 crs = Some \<lparr>crs_name = ''WGS 84 / UTM zone 39N'', is_geographic = False\<rparr>\<rparr>"

definition ex_matrix :: matrix where
  "ex_matrix = \<lparr>row_labels = [VStr ''A'', VStr ''B'', VStr ''C'', VStr ''D''],
                col_labels = [''A'', ''B'', ''C'', ''D''],
                cells = [[None, Some 5, Some 3, Some 4],
                         [Some 2, None, None, None],
                         [None, None, None, None],
                         [Some 1, None, None, None]]\<rparr>"

text \<open>The two parcels of the design scenario, and a matrix that is not symmetric.\<close>

definition two_parcels :: "(real \<times> real) gdf" where
  "two_parcels = \<lparr>geometry = [(0, 1), (1.05, 2)],
                  columns = [(''use'', [VStr ''Residential'', VStr ''Industrial''])],
                  crs = Some \<lparr>crs_name = ''WGS 84 / UTM zone 39N'', is_geographic = False\<rparr>\<rparr>"

definition directed_matrix :: matrix where
  "directed_matrix = \<lparr>row_labels = [VStr ''Residential'', VStr ''Industrial''],
                      col_labels = [''Residential'', ''Industrial''],
                      cells = [[Some 5, Some 1], [Some 2, Some 5]]\<rparr>"

text \<open>Two more matrices: one with a score that is not an integer, one with scores
  outside the range 1 to 5 and a blank cell.\<close>

definition fractional_matrix :: matrix where
  "fractional_matrix = \<lparr>row_labels = [VStr ''Residential'', VStr ''Industrial''],
                        col_labels = [''Residential'', ''Industrial''],
                        cells = [[Some 5, Some (5 / 2)], [Some 2, Some 5]]\<rparr>"

definition wide_matrix :: matrix where
  "wide_matrix = \<lparr>row_labels = [VStr ''Residential'', VStr ''Industrial''],
                  col_labels = [''Residential'', ''Industrial''],
                  cells = [[None, Some 7], [Some 0, Some (- 3)]]\<rparr>"


definition geographic_parcels :: "(real \<times> real) gdf" where
  "geographic_parcels = two_parcels\<lparr>crs := Some \<lparr>crs_name = ''WGS 84'', is_geographic = True\<rparr>\<rparr>"


text \<open>Two parcels that bring their own identifiers, and what the run writes for the two
  parcels of the scenario.\<close>

definition id_parcels :: "(real \<times> real) gdf" where
  "id_parcels = \<lparr>geometry = [(0, 1), (1.05, 2)],
                 columns = [(''unique_id'', [VInt 7, VInt 9]),
                            (''use'', [VStr ''Residential'', VStr ''Industrial''])],
                 crs = Some \<lparr>crs_name = ''WGS 84 / UTM zone 39N'', is_geographic = False\<rparr>\<rparr>"

definition two_parcels_reports :: reports where
  "two_parcels_reports =
     \<lparr>overall = [(1, 1, 50), (2, 1, 50), (3, 0, 0), (4, 0, 0), (5, 0, 0)],
      detailed = \<lparr>land_uses = [VStr ''Industrial'', VStr ''Residential''],
                  score_columns = [(1, [0, 1]), (2, [1, 0]), (3, [0, 0]), (4, [0, 0]), (5, [0, 0])],
                  total_parcels = [1, 1]\<rparr>\<rparr>"

definition two_parcels_scored :: "(real \<times> real) artifacts" where
  "two_parcels_scored =
     \<lparr>scored_parcels =
        \<lparr>geometry = [(0, 1), (1.05, 2)],
         columns = [(''use'', [VStr ''Residential'', VStr ''Industrial'']),
                    (''compat_score'', [VInt 1, VInt 2])],
         crs = Some \<lparr>crs_name = ''WGS 84 / UTM zone 39N'', is_geographic = False\<rparr>\<rparr>,
      summaries = two_parcels_reports\<rparr>"

definition geographic_parcels_scored :: "(real \<times> real) artifacts" where
  "geographic_parcels_scored =
     \<lparr>scored_parcels =
        \<lparr>geometry = [(500000, 500001), (500001.05, 500002)],
         columns = [(''use'', [VStr ''Residential'', VStr ''Industrial'']),
                    (''compat_score'', [VInt 1, VInt 2])],
         crs = Some \<lparr>crs_name = ''WGS 84 / UTM zone 39N'', is_geographic = False\<rparr>\<rparr>,
      summaries = two_parcels_reports\<rparr>"

text \<open>What the run writes for the two parcels under the matrix with the scores 7 and 0.\<close>

definition wide_matrix_reports :: reports where
  "wide_matrix_reports =
     \<lparr>overall = [(1, 0, 0), (2, 0, 0), (3, 0, 0), (4, 0, 0), (5, 0, 0)],
      detailed = \<lparr>land_uses = [VStr ''Industrial'', VStr ''Residential''],
                  score_columns = [(0, [1, 0]), (1, [0, 0]), (2, [0, 0]), (3, [0, 0]),
                                   (4, [0, 0]), (5, [0, 0]), (7, [0, 1])],
                  total_parcels = [1, 1]\<rparr>\<rparr>"

definition wide_matrix_scored :: "(real \<times> real) artifacts" where
  "wide_matrix_scored =
     \<lparr>scored_parcels =
        \<lparr>geometry = [(0, 1), (1.05, 2)],
         columns = [(''use'', [VStr ''Residential'', VStr ''Industrial'']),
                    (''compat_score'', [VInt 7, VInt 0])],
         crs = Some \<lparr>crs_name = ''WGS 84 / UTM zone 39N'', is_geographic = False\<rparr>\<rparr>,
      summaries = wide_matrix_reports\<rparr>"

text \<open>
  The two parcels of the design scenario as sets of points of the line, and a library
  whose buffer and test are replaced by those of the design.
\<close>

definition no_lib :: "real set geolib" where
  "no_lib = \<lparr>buffer = (\<lambda>d A. A), intersects = (\<lambda>A B. False), to_crs = (\<lambda>src dst A. A),
             estimate_utm_crs = (\<lambda>gs. \<lparr>crs_name = ''WGS 84 / UTM zone 39N'',
                                        is_geographic = False\<rparr>)\<rparr>"

definition scenario_rows :: "(val \<times> val \<times> real set) list" where
  "scenario_rows = [(VInt 0, VStr ''Residential'', {0..1}), (VInt 1, VStr ''Industrial'', {1.05..2})]"

text \<open>
  The two parcels with a third one far from both; a matrix with one cell at will; a
  matrix whose row labels are numbers.
\<close>

definition three_parcels :: "(real \<times> real) gdf" where
  "three_parcels = \<lparr>geometry = [(0, 1), (1.05, 2), (100, 101)],
                    columns = [(''use'', [VStr ''Residential'', VStr ''Industrial'',
                                          VStr ''Residential''])],
                    crs = Some \<lparr>crs_name = ''WGS 84 / UTM zone 39N'', is_geographic = False\<rparr>\<rparr>"

definition huge_matrix :: "int \<Rightarrow> matrix" where
  "huge_matrix n = \<lparr>row_labels = [VStr ''Residential'', VStr ''Industrial''],
                     col_labels = [''Residential'', ''Industrial''],
                     cells = [[Some 5, Some (rat_of_int n)], [Some 2, Some 5]]\<rparr>"

definition numeric_rows_matrix :: matrix where
  "numeric_rows_matrix = \<lparr>row_labels = [VInt 1, VInt 2], col_labels = [''1'', ''2''],
                           cells = [[Some 5, Some 1], [Some 2, Some 5]]\<rparr>"

section \<open>Auxiliary lemmas\<close>

subsection \<open>The pipeline computes the minimum of the resolved scores\<close>

lemma in_adjacent_pairs_iff:
  "(u, c, u') \<in> set (adjacent_pairs lib d rows) \<longleftrightarrow>
     (\<exists>g c' g'. (u, c, g) \<in> set rows \<and> (u', c', g') \<in> set rows \<and>
        intersects lib g (buffer lib d g') \<and> u \<noteq> u')"
  unfolding adjacent_pairs_def
  by (fastforce split: if_splits)

lemma in_merge_right_uses_iff:
  "(u, c, u', c') \<in> set (merge_right_uses pairs ru) \<longleftrightarrow>
     (u, c, u') \<in> set pairs \<and> c' \<in> set (left_merge [cr. (cr, ur) \<leftarrow> ru, ur = u'] VNull)"
  unfolding merge_right_uses_def
  by fastforce

lemma in_scored_pairs_iff:
  "(u, so) \<in> set (scored_pairs pairs ml) \<longleftrightarrow>
     (\<exists>c u' c'. (u, c, u', c') \<in> set pairs \<and> so \<in> set (left_merge (map Some (lookup ml c c')) None))"
  unfolding scored_pairs_def
  by fastforce


lemma in_rows_iff:
  assumes "length ids = n" "length cls = n" "length geo = n"
  shows "(u, c, g) \<in> set (zip ids (zip cls geo)) \<longleftrightarrow> (\<exists>k<n. u = ids ! k \<and> c = cls ! k \<and> g = geo ! k)"
  using assms by (auto simp: set_zip)

lemma right_use_unique:
  assumes "distinct ids" "length ids = n" "length cls = n" "j < n"
  shows "[cr. (cr, ur) \<leftarrow> zip cls ids, ur = ids ! j] = [cls ! j]"
  using assms
proof (induction ids arbitrary: cls n j)
  case Nil
  then show ?case by simp
next
  case (Cons a ids)
  then obtain c cls' where cls: "cls = c # cls'" by (cases cls) auto
  show ?case
  proof (cases j)
    case 0
    have "[cr. (cr, ur) \<leftarrow> zip cls' ids, ur = a] = []"
      using Cons.prems(1) by (auto simp: filter_empty_conv concat_eq_Nil_conv dest: set_zip_rightD)
    then show ?thesis using 0 cls by simp
  next
    case (Suc j')
    have "ids ! j' \<in> set ids" using Cons.prems Suc by auto
    then have ne: "a \<noteq> ids ! j'" using Cons.prems(1) by auto
    have "[cr. (cr, ur) \<leftarrow> zip cls' ids, ur = ids ! j'] = [cls' ! j']"
      using Cons.IH[of "n - 1" cls' j'] Cons.prems Suc cls by auto
    then show ?thesis using Suc cls ne by simp
  qed
qed

lemma set_somes: "set [s. Some s \<leftarrow> xs] = {s. Some s \<in> set xs}"
  by (induction xs) (auto split: option.splits)

lemma skipna_min_eq:
  "skipna_min xs = (if {s. Some s \<in> set xs} = {} then None else Some (Min {s. Some s \<in> set xs}))"
proof (cases "[s. Some s \<leftarrow> xs]")
  case Nil
  then have e: "{s. Some s \<in> set xs} = {}" using set_somes[of xs] by simp
  have "skipna_min xs = None" unfolding skipna_min_def Nil by simp
  then show ?thesis using e by simp
next
  case (Cons y ys)
  then have eq: "{s. Some s \<in> set xs} = set (y # ys)" using set_somes[of xs] by simp
  have "fold min ys y = Min (set (y # ys))" by (simp only: Min.set_eq_fold)
  then have "skipna_min xs = Some (Min (set (y # ys)))" unfolding skipna_min_def Cons by simp
  then show ?thesis using eq by simp
qed

lemma group_keys_set: "set (group_keys ks) = set ks - {VNull}"
  by (auto simp: group_keys_def)

lemma group_keys_distinct: "distinct (group_keys ks)"
  by (simp add: group_keys_def)

lemma keyed_filter:
  "distinct ks \<Longrightarrow> [s. (k, s) \<leftarrow> map (\<lambda>u. (u, f u)) ks, k = u] = (if u \<in> set ks then [f u] else [])"
  by (induction ks) auto

lemma set_group: "{s. Some s \<in> set [s. (u', s) \<leftarrow> sp, u' = u]} = {s. (u, Some s) \<in> set sp}"
  by (induction sp) auto

lemma merge_final_eq:
  "merge_final (final_scores sp) u =
     (if u = VNull \<or> {s. (u, Some s) \<in> set sp} = {} then None
      else Some (Min {s. (u, Some s) \<in> set sp}))"
proof -
  have f: "[s. (k, s) \<leftarrow> final_scores sp, k = u] =
        (if u \<in> set (group_keys (map fst sp)) then [skipna_min [s. (u', s) \<leftarrow> sp, u' = u]] else [])"
    unfolding final_scores_def by (rule keyed_filter[OF group_keys_distinct])
  show ?thesis
  proof (cases "u \<in> set (group_keys (map fst sp))")
    case True
    then have "u \<noteq> VNull" by (simp add: group_keys_set)
    moreover have "merge_final (final_scores sp) u = skipna_min [s. (u', s) \<leftarrow> sp, u' = u]"
      unfolding merge_final_def f using True by simp
    ultimately show ?thesis by (simp add: skipna_min_eq set_group)
  next
    case False
    then have "u = VNull \<or> u \<notin> fst ` set sp" unfolding group_keys_set by auto
    then have "u = VNull \<or> {s. (u, Some s) \<in> set sp} = {}" by force
    moreover have "merge_final (final_scores sp) u = None"
      unfolding merge_final_def f using False by simp
    ultimately show ?thesis by auto
  qed
qed

lemma in_merged_iff:
  assumes "distinct ids" "length ids = n" "length cls = n" "length geo = n"
  shows "(u, c, u', c') \<in> set (merge_right_uses (adjacent_pairs lib d (zip ids (zip cls geo))) (zip cls ids)) \<longleftrightarrow>
     (\<exists>k<n. \<exists>j<n. u = ids ! k \<and> c = cls ! k \<and> u' = ids ! j \<and> c' = cls ! j \<and> k \<noteq> j \<and>
        intersects lib (geo ! k) (buffer lib d (geo ! j)))"
    (is "?L \<longleftrightarrow> ?R")
proof
  assume ?L
  then have p: "(u, c, u') \<in> set (adjacent_pairs lib d (zip ids (zip cls geo)))"
    and m: "c' \<in> set (left_merge [cr. (cr, ur) \<leftarrow> zip cls ids, ur = u'] VNull)"
    by (simp_all add: in_merge_right_uses_iff)
  from p obtain g c'' g' where
    a: "(u, c, g) \<in> set (zip ids (zip cls geo))" and b: "(u', c'', g') \<in> set (zip ids (zip cls geo))"
    and i: "intersects lib g (buffer lib d g')" and ne: "u \<noteq> u'"
    unfolding in_adjacent_pairs_iff by blast
  from a obtain k where k: "k < n" "u = ids ! k" "c = cls ! k" "g = geo ! k"
    using in_rows_iff[OF assms(2,3,4)] by blast
  from b obtain j where j: "j < n" "u' = ids ! j" "c'' = cls ! j" "g' = geo ! j"
    using in_rows_iff[OF assms(2,3,4)] by blast
  have "[cr. (cr, ur) \<leftarrow> zip cls ids, ur = u'] = [cls ! j]"
    unfolding j(2) by (rule right_use_unique[OF assms(1,2,3) j(1)])
  then have "c' = cls ! j" using m by (simp add: left_merge_def)
  moreover have "k \<noteq> j" using ne k j by auto
  ultimately show ?R using k j i by blast
next
  assume ?R
  then obtain k j where k: "k < n" "u = ids ! k" "c = cls ! k"
    and j: "j < n" "u' = ids ! j" "c' = cls ! j" and ne: "k \<noteq> j"
    and i: "intersects lib (geo ! k) (buffer lib d (geo ! j))" by blast
  have a: "(u, c, geo ! k) \<in> set (zip ids (zip cls geo))"
    using in_rows_iff[OF assms(2,3,4)] k by blast
  have b: "(u', c', geo ! j) \<in> set (zip ids (zip cls geo))"
    using in_rows_iff[OF assms(2,3,4)] j by blast
  have "u \<noteq> u'" using assms(1,2) k j ne by (simp add: nth_eq_iff_index_eq)
  then have p: "(u, c, u') \<in> set (adjacent_pairs lib d (zip ids (zip cls geo)))"
    unfolding in_adjacent_pairs_iff using a b i by blast
  have "[cr. (cr, ur) \<leftarrow> zip cls ids, ur = u'] = [cls ! j]"
    unfolding j(2) by (rule right_use_unique[OF assms(1,2,3) j(1)])
  then have "c' \<in> set (left_merge [cr. (cr, ur) \<leftarrow> zip cls ids, ur = u'] VNull)"
    using j by (simp add: left_merge_def)
  then show ?L using p by (simp add: in_merge_right_uses_iff)
qed

lemma some_in_left_merge: "Some s \<in> set (left_merge (map Some xs) None) \<longleftrightarrow> s \<in> set xs"
  by (auto simp: left_merge_def)

lemma scored_set:
  assumes "distinct ids" "length ids = n" "length cls = n" "length geo = n" "i < n"
  shows "{s. (ids ! i, Some s) \<in> set (scored_pairs
            (merge_right_uses (adjacent_pairs lib d (zip ids (zip cls geo))) (zip cls ids)) ml)}
       = {s. \<exists>j<n. j \<noteq> i \<and> intersects lib (geo ! i) (buffer lib d (geo ! j)) \<and>
                s \<in> set (lookup ml (cls ! i) (cls ! j))}"
    (is "?A = ?B")
proof (rule set_eqI)
  fix s
  have "s \<in> ?A \<longleftrightarrow> (\<exists>c u' c'. (\<exists>k<n. \<exists>j<n. ids ! i = ids ! k \<and> c = cls ! k \<and> u' = ids ! j \<and> c' = cls ! j \<and> k \<noteq> j \<and>
        intersects lib (geo ! k) (buffer lib d (geo ! j))) \<and> s \<in> set (lookup ml c c'))"
    by (simp add: in_scored_pairs_iff some_in_left_merge in_merged_iff[OF assms(1,2,3,4)])
  also have "\<dots> \<longleftrightarrow> (\<exists>k<n. \<exists>j<n. ids ! i = ids ! k \<and> k \<noteq> j \<and>
        intersects lib (geo ! k) (buffer lib d (geo ! j)) \<and> s \<in> set (lookup ml (cls ! k) (cls ! j)))"
    by blast
  also have "\<dots> \<longleftrightarrow> (\<exists>j<n. i \<noteq> j \<and>
        intersects lib (geo ! i) (buffer lib d (geo ! j)) \<and> s \<in> set (lookup ml (cls ! i) (cls ! j)))"
    using assms(1,2,5) by (auto simp: nth_eq_iff_index_eq)
  also have "\<dots> \<longleftrightarrow> s \<in> ?B" by auto
  finally show "s \<in> ?A \<longleftrightarrow> s \<in> ?B" .
qed

lemma uid_column:
  "\<not> has_column g ''unique_id'' \<Longrightarrow>
     column (with_unique_id g) ''unique_id'' = map (\<lambda>i. VInt (int i)) [0..<length (geometry g)]"
proof -
  assume h: "\<not> has_column g ''unique_id''"
  then have "map_of (columns g) ''unique_id'' = None"
    by (simp add: has_column_def map_of_eq_None_iff)
  then show ?thesis using h
    by (simp add: with_unique_id_def column_def map_add_def)
qed

lemma other_column:
  "name \<noteq> ''unique_id'' \<Longrightarrow> column (with_unique_id g) name = column g name"
  by (simp add: with_unique_id_def column_def map_add_def split: option.splits)

lemma geometry_with_unique_id: "geometry (with_unique_id g) = geometry g"
  by (simp add: with_unique_id_def)

lemma distinct_uids: "distinct (map (\<lambda>i. VInt (int i)) [0..<n])"
  by (simp add: distinct_map inj_on_def)

lemma synthesized_unique_ids: "\<not> has_column g ''unique_id'' \<Longrightarrow> unique_ids g"
  by (auto simp: unique_ids_def uid_column distinct_uids)

lemma raw_scores_unfold:
  assumes "lu \<noteq> ''unique_id''"
  shows "raw_scores lib d (with_unique_id g) lu M =
     map (merge_final (final_scores (scored_pairs
            (merge_right_uses
               (adjacent_pairs lib d
                  (zip (column (with_unique_id g) ''unique_id'')
                       (zip (column g lu) (geometry g))))
               (zip (column g lu) (column (with_unique_id g) ''unique_id'')))
            (matrix_long M))))
         (column (with_unique_id g) ''unique_id'')"
  unfolding raw_scores_def parcel_rows_def right_uses_def Let_def
    other_column[OF assms] geometry_with_unique_id ..

lemma length_raw_scores:
  assumes "unique_ids g" "lu \<noteq> ''unique_id''"
  shows "length (raw_scores lib d (with_unique_id g) lu M) = length (geometry g)"
  unfolding raw_scores_unfold[OF assms(2)] using assms(1) by (simp add: unique_ids_def)

lemma raw_scores_nth:
  assumes "unique_ids g" "lu \<noteq> ''unique_id''"
    and "length (column g lu) = length (geometry g)" "i < length (geometry g)"
  shows "raw_scores lib d (with_unique_id g) lu M ! i =
     (if {s. \<exists>j<length (geometry g). j \<noteq> i \<and>
               intersects lib (geometry g ! i) (buffer lib d (geometry g ! j)) \<and>
               s \<in> set (lookup (matrix_long M) (column g lu ! i) (column g lu ! j))} = {}
      then None
      else Some (Min {s. \<exists>j<length (geometry g). j \<noteq> i \<and>
               intersects lib (geometry g ! i) (buffer lib d (geometry g ! j)) \<and>
               s \<in> set (lookup (matrix_long M) (column g lu ! i) (column g lu ! j))}))"
proof -
  let ?n = "length (geometry g)"
  let ?ids = "column (with_unique_id g) ''unique_id''"
  have di: "distinct ?ids" and li: "length ?ids = ?n" and nn: "VNull \<notin> set ?ids"
    using assms(1) by (simp_all add: unique_ids_def)
  have idi: "?ids ! i \<noteq> VNull" using nn li assms(4) by (metis nth_mem)
  have s: "{s. (?ids ! i, Some s) \<in> set (scored_pairs
            (merge_right_uses (adjacent_pairs lib d (zip ?ids (zip (column g lu) (geometry g))))
               (zip (column g lu) ?ids)) (matrix_long M))}
       = {s. \<exists>j<?n. j \<noteq> i \<and> intersects lib (geometry g ! i) (buffer lib d (geometry g ! j)) \<and>
                s \<in> set (lookup (matrix_long M) (column g lu ! i) (column g lu ! j))}"
    by (rule scored_set[OF di li assms(3) refl assms(4)])
  have "raw_scores lib d (with_unique_id g) lu M ! i =
      merge_final (final_scores (scored_pairs
            (merge_right_uses (adjacent_pairs lib d (zip ?ids (zip (column g lu) (geometry g))))
               (zip (column g lu) ?ids)) (matrix_long M))) (?ids ! i)"
    unfolding raw_scores_unfold[OF assms(2)] using assms(4) li by simp
  then show ?thesis unfolding merge_final_eq s using idi by simp
qed

lemma astype_Int64_Inr:
  "astype_Int64 xs = Inr cs \<Longrightarrow> length cs = length xs \<and> (\<forall>i<length xs. rat_of_int (cs ! i) = xs ! i)"
  by (auto simp: astype_Int64_def list_all_length is_int64_def split: if_splits)

lemma set_neighbours:
  "set (neighbours lib d g i) =
     {j. j < length (geometry g) \<and> j \<noteq> i \<and>
         intersects lib (geometry g ! i) (buffer lib d (geometry g ! j))}"
  by (auto simp: neighbours_def)

lemma set_resolved_scores:
  "set (resolved_scores lib d g lu M i) =
     {s. \<exists>j<length (geometry g). j \<noteq> i \<and>
            intersects lib (geometry g ! i) (buffer lib d (geometry g ! j)) \<and>
            s \<in> set (lookup (matrix_long M) (column g lu ! i) (column g lu ! j))}"
  by (auto simp: resolved_scores_def set_neighbours)

lemma raw_scores_resolved:
  assumes "unique_ids g" "lu \<noteq> ''unique_id''"
    and "length (column g lu) = length (geometry g)" "i < length (geometry g)"
  shows "raw_scores lib d (with_unique_id g) lu M ! i =
     (if resolved_scores lib d g lu M i = [] then None
      else Some (Min (set (resolved_scores lib d g lu M i))))"
proof -
  have "(resolved_scores lib d g lu M i = []) = (set (resolved_scores lib d g lu M i) = {})"
    by simp
  then show ?thesis
    unfolding raw_scores_nth[OF assms] set_resolved_scores[symmetric] by simp
qed


subsection \<open>The long form of the matrix\<close>

lemma set_stack_row:
  "set (stack_row cols r vs) =
     {(r, VStr (cols ! c), s) | c s. c < length cols \<and> c < length vs \<and> vs ! c = Some s}"
proof -
  have "set (stack_row cols r vs) = {(r, VStr c, s) | c s. (c, Some s) \<in> set (zip cols vs)}"
    unfolding stack_row_def by (fastforce split: option.splits)
  also have "\<dots> = {(r, VStr (cols ! c), s) | c s. c < length cols \<and> c < length vs \<and> vs ! c = Some s}"
    by (fastforce simp: in_set_zip)
  finally show ?thesis .
qed

lemma in_matrix_long_iff:
  "(a, b, s) \<in> set (matrix_long M) \<longleftrightarrow>
     (\<exists>r c. r < length (row_labels M) \<and> r < length (cells M) \<and>
            c < length (col_labels M) \<and> c < length (cells M ! r) \<and>
            row_labels M ! r = a \<and> VStr (col_labels M ! c) = b \<and> cells M ! r ! c = Some s)"
  unfolding matrix_long_def
  by (fastforce simp: set_stack_row in_set_zip)

lemma set_lookup: "set (lookup ml a b) = {s. (a, b, s) \<in> set ml}"
  unfolding lookup_def by fastforce


lemma lookup_blank:
  assumes "\<And>r c. r < length (row_labels M) \<Longrightarrow> r < length (cells M) \<Longrightarrow>
             c < length (col_labels M) \<Longrightarrow> c < length (cells M ! r) \<Longrightarrow>
             row_labels M ! r = a \<Longrightarrow> VStr (col_labels M ! c) = b \<Longrightarrow> cells M ! r ! c = None"
  shows "lookup (matrix_long M) a b = []"
proof -
  have "s \<notin> set (lookup (matrix_long M) a b)" for s
  proof
    assume "s \<in> set (lookup (matrix_long M) a b)"
    then have "(a, b, s) \<in> set (matrix_long M)" by (simp add: set_lookup)
    then obtain r c where "r < length (row_labels M)" "r < length (cells M)"
      "c < length (col_labels M)" "c < length (cells M ! r)"
      "row_labels M ! r = a" "VStr (col_labels M ! c) = b" "cells M ! r ! c = Some s"
      unfolding in_matrix_long_iff by blast
    then show False using assms by fastforce
  qed
  then show ?thesis by (cases "lookup (matrix_long M) a b") auto
qed

subsection \<open>Every score of a parcel is a cell of the matrix\<close>

lemma scored_pairs_score:
  "(u, Some s) \<in> set (scored_pairs pairs ml) \<Longrightarrow> \<exists>a b. (a, b, s) \<in> set ml"
  unfolding in_scored_pairs_iff some_in_left_merge set_lookup by blast

lemma skipna_min_Some: "skipna_min xs = Some m \<Longrightarrow> Some m \<in> set xs"
proof -
  assume a: "skipna_min xs = Some m"
  let ?S = "{s. Some s \<in> set xs}"
  have ne: "?S \<noteq> {}" and m: "m = Min ?S"
    using a unfolding skipna_min_eq by (auto split: if_splits)
  have "?S = set [s. Some s \<leftarrow> xs]" by (simp only: set_somes)
  then have "finite ?S" by (metis List.finite_set)
  then have "Min ?S \<in> ?S" using ne by (rule Min_in)
  then show ?thesis using m by simp
qed

lemma in_group: "x \<in> set [s. (u', s) \<leftarrow> sp, u' = u] \<Longrightarrow> (u, x) \<in> set sp"
  by (induction sp) (auto split: if_splits)

lemma final_scores_score:
  "(k, Some m) \<in> set (final_scores sp) \<Longrightarrow> \<exists>u. (u, Some m) \<in> set sp"
proof -
  assume "(k, Some m) \<in> set (final_scores sp)"
  then have "skipna_min [s. (u', s) \<leftarrow> sp, u' = k] = Some m"
    unfolding final_scores_def by auto
  then have "Some m \<in> set [s. (u', s) \<leftarrow> sp, u' = k]" by (rule skipna_min_Some)
  then have "(k, Some m) \<in> set sp" by (rule in_group)
  then show ?thesis by blast
qed

lemma merge_final_score: "merge_final fs u = Some m \<Longrightarrow> \<exists>k. (k, Some m) \<in> set fs"
proof -
  assume a: "merge_final fs u = Some m"
  obtain x xs where l: "[s. (k, s) \<leftarrow> fs, k = u] = x # xs"
    using a unfolding merge_final_def by (cases "[s. (k, s) \<leftarrow> fs, k = u]") auto
  have "x = Some m" using a unfolding merge_final_def l by simp
  moreover have "x \<in> set [s. (k, s) \<leftarrow> fs, k = u]" unfolding l by simp
  ultimately have "(u, Some m) \<in> set fs" using in_group by fastforce
  then show ?thesis by blast
qed

lemma matrix_long_cell:
  "(a, b, s) \<in> set (matrix_long M) \<Longrightarrow> \<exists>row\<in>set (cells M). Some s \<in> set row"
proof -
  assume "(a, b, s) \<in> set (matrix_long M)"
  then obtain r c where "r < length (cells M)" "c < length (cells M ! r)"
    "cells M ! r ! c = Some s"
    unfolding in_matrix_long_iff by blast
  then show ?thesis by (metis nth_mem)
qed

lemma raw_scores_cell:
  assumes "Some m \<in> set (raw_scores lib d g lu M)"
  shows "\<exists>row\<in>set (cells M). Some m \<in> set row"
proof -
  obtain fs sp pairs where fs: "fs = final_scores sp"
    and sp: "sp = scored_pairs pairs (matrix_long M)"
    and r: "raw_scores lib d g lu M = map (merge_final fs) (column g ''unique_id'')"
    unfolding raw_scores_def Let_def by blast
  from assms obtain u where "merge_final fs u = Some m" unfolding r by auto
  then obtain k where "(k, Some m) \<in> set fs" using merge_final_score by blast
  then obtain u' where "(u', Some m) \<in> set sp" unfolding fs using final_scores_score by blast
  then obtain a b where "(a, b, m) \<in> set (matrix_long M)" unfolding sp using scored_pairs_score by blast
  then show ?thesis by (rule matrix_long_cell)
qed

lemma to_float64_exact: "\<bar>x\<bar> \<le> 2 ^ 53 \<Longrightarrow> to_float64 x = x"
proof -
  assume a: "\<bar>x\<bar> \<le> 2 ^ 53"
  show ?thesis
  proof (cases "rat_of_int \<lfloor>x\<rfloor> = x")
    case True
    define n where "n = \<lfloor>x\<rfloor>"
    have x: "x = rat_of_int n" unfolding n_def by (rule True[symmetric])
    have "rat_of_int \<bar>n\<bar> \<le> rat_of_int (2 ^ 53)" using a unfolding x by simp
    then have "\<bar>n\<bar> \<le> 2 ^ 53" by (simp only: of_int_le_iff)
    then show ?thesis unfolding x by (simp add: to_float64_def float64_of_int_def)
  next
    case False
    then show ?thesis by (simp add: to_float64_def)
  qed
qed

lemma to_float64_5: "to_float64 5 = 5"
  by (rule to_float64_exact) simp

lemma fillna_to_float64: "fillna 5 (map_option to_float64 x) = to_float64 (fillna 5 x)"
  by (cases x) (simp_all add: fillna_def to_float64_5)

lemma int64_matrix_cell:
  assumes "int64_matrix M" "row \<in> set (cells M)" "Some m \<in> set row"
  shows "is_int64 m"
  using assms unfolding int64_matrix_def by (fastforce simp: list_all_iff)

lemma compat_score_unfold:
  "compat_score lib d g lu M =
     (if merge_right_uses (adjacent_pairs lib d (parcel_rows g lu)) (right_uses g lu) \<noteq> [] \<and>
         matrix_long M \<noteq> [] \<and> incompatible_keys (column g lu) (row_labels M)
      then Inl ValueError
      else if has_column g ''compat_score'' then Inl (KeyError ''compat_score'')
      else if int64_matrix M \<and>
              list_all (\<lambda>(u, s). s \<noteq> None)
                (scored_pairs (merge_right_uses (adjacent_pairs lib d (parcel_rows g lu))
                                 (right_uses g lu)) (matrix_long M)) \<and>
              list_all (\<lambda>s. s \<noteq> None) (raw_scores lib d g lu M)
           then Inr (map (\<lambda>s. \<lfloor>fillna 5 s\<rfloor>) (raw_scores lib d g lu M))
           else astype_Int64 (map (fillna 5) (map (map_option to_float64) (raw_scores lib d g lu M))))"
  unfolding compat_score_def Let_def ..

lemma compat_score_Inr:
  assumes "compat_score lib d g lu M = Inr cs"
  shows "\<not> has_column g ''compat_score''"
    and "length cs = length (raw_scores lib d g lu M)"
    and "i < length (raw_scores lib d g lu M) \<Longrightarrow>
         rat_of_int (cs ! i) = fillna 5 (raw_scores lib d g lu M ! i) \<or>
         rat_of_int (cs ! i) = to_float64 (fillna 5 (raw_scores lib d g lu M ! i))"
proof -
  let ?raw = "raw_scores lib d g lu M"
  define A where "A = (merge_right_uses (adjacent_pairs lib d (parcel_rows g lu)) (right_uses g lu) \<noteq> [] \<and>
         matrix_long M \<noteq> [] \<and> incompatible_keys (column g lu) (row_labels M))"
  define B where "B = (list_all (\<lambda>(u, s). s \<noteq> None)
                (scored_pairs (merge_right_uses (adjacent_pairs lib d (parcel_rows g lu))
                                 (right_uses g lu)) (matrix_long M)))"
  have a: "(if A then Inl ValueError
            else if has_column g ''compat_score'' then Inl (KeyError ''compat_score'')
            else if int64_matrix M \<and> B \<and> list_all (\<lambda>s. s \<noteq> None) ?raw
                 then Inr (map (\<lambda>s. \<lfloor>fillna 5 s\<rfloor>) ?raw)
                 else astype_Int64 (map (fillna 5) (map (map_option to_float64) ?raw))) = Inr cs"
    using assms unfolding compat_score_unfold A_def B_def .
  have nA: "\<not> A" using a by (cases A) simp_all
  show nc: "\<not> has_column g ''compat_score''"
    using a nA by (cases "has_column g ''compat_score''") simp_all
  have b: "(if int64_matrix M \<and> B \<and> list_all (\<lambda>s. s \<noteq> None) ?raw
            then Inr (map (\<lambda>s. \<lfloor>fillna 5 s\<rfloor>) ?raw)
            else astype_Int64 (map (fillna 5) (map (map_option to_float64) ?raw))) = Inr cs"
    using a nA nc by simp
  have "length cs = length ?raw \<and>
             (i < length ?raw \<longrightarrow>
                rat_of_int (cs ! i) = fillna 5 (?raw ! i) \<or>
                rat_of_int (cs ! i) = to_float64 (fillna 5 (?raw ! i)))"
  proof (cases "int64_matrix M \<and> B \<and> list_all (\<lambda>s. s \<noteq> None) ?raw")
    case True
    then have int: "int64_matrix M" "list_all (\<lambda>s. s \<noteq> None) ?raw"
      by blast+
    have "Inr (map (\<lambda>s. \<lfloor>fillna 5 s\<rfloor>) ?raw) = (Inr cs :: exn + int list)"
      using b unfolding if_P[OF True] .
    then have cs: "cs = map (\<lambda>s. \<lfloor>fillna 5 s\<rfloor>) ?raw" by simp
    have "rat_of_int (cs ! i) = fillna 5 (?raw ! i)" if i: "i < length ?raw"
    proof -
      have "?raw ! i \<noteq> None" using int(2) i by (simp add: list_all_length)
      then obtain m where m: "?raw ! i = Some m" by blast
      then have "Some m \<in> set ?raw" using i by (metis nth_mem)
      then obtain row where row: "row \<in> set (cells M)" "Some m \<in> set row"
        using raw_scores_cell by blast
      have "is_int64 m" by (rule int64_matrix_cell[OF int(1) row])
      then have "rat_of_int \<lfloor>m\<rfloor> = m" unfolding is_int64_def by blast
      then show ?thesis using i m unfolding cs by (simp add: fillna_def)
    qed
    then show ?thesis unfolding cs by simp
  next
    case False
    have float: "astype_Int64 (map (fillna 5) (map (map_option to_float64) ?raw)) = Inr cs"
      using b unfolding if_not_P[OF False] .
    have l: "length cs = length ?raw" using astype_Int64_Inr[OF float] by simp
    have "rat_of_int (cs ! i) = to_float64 (fillna 5 (?raw ! i))" if i: "i < length ?raw"
    proof -
      have "rat_of_int (cs ! i) = map (fillna 5) (map (map_option to_float64) ?raw) ! i"
        using astype_Int64_Inr[OF float] i by simp
      also have "\<dots> = to_float64 (fillna 5 (?raw ! i))"
        using i by (simp add: fillna_to_float64)
      finally show ?thesis .
    qed
    then show ?thesis using l by blast
  qed
  then show "length cs = length ?raw"
    and "i < length ?raw \<Longrightarrow>
         rat_of_int (cs ! i) = fillna 5 (?raw ! i) \<or>
         rat_of_int (cs ! i) = to_float64 (fillna 5 (?raw ! i))"
    by blast+
qed

lemma compat_score_nth:
  assumes "unique_ids g" "lu \<noteq> ''unique_id''"
    and "compat_score lib d (with_unique_id g) lu M = Inr cs" "i < length (geometry g)"
  shows "length cs = length (geometry g)"
    and "\<bar>fillna 5 (raw_scores lib d (with_unique_id g) lu M ! i)\<bar> \<le> 2 ^ 53 \<Longrightarrow>
         rat_of_int (cs ! i) = fillna 5 (raw_scores lib d (with_unique_id g) lu M ! i)"
proof -
  have l: "length (raw_scores lib d (with_unique_id g) lu M) = length (geometry g)"
    by (rule length_raw_scores[OF assms(1,2)])
  show "length cs = length (geometry g)"
    using compat_score_Inr(2)[OF assms(3)] l by simp
  assume "\<bar>fillna 5 (raw_scores lib d (with_unique_id g) lu M ! i)\<bar> \<le> 2 ^ 53"
  then have "to_float64 (fillna 5 (raw_scores lib d (with_unique_id g) lu M ! i)) =
             fillna 5 (raw_scores lib d (with_unique_id g) lu M ! i)"
    by (rule to_float64_exact)
  then show "rat_of_int (cs ! i) = fillna 5 (raw_scores lib d (with_unique_id g) lu M ! i)"
    using compat_score_Inr(3)[OF assms(3), of i] l assms(4) by auto
qed

lemma check_crs_columns: "columns (snd (check_crs lib g)) = columns g"
  by (simp add: check_crs_def Let_def split: option.splits)

lemma has_column_check_crs: "has_column (snd (check_crs lib g)) name = has_column g name"
  by (simp add: has_column_def check_crs_columns)

lemma has_column_with_unique_id:
  "name \<noteq> ''unique_id'' \<Longrightarrow> has_column (with_unique_id g) name = has_column g name"
  by (auto simp: with_unique_id_def has_column_def)

lemma is_int64_5: "is_int64 5"
  by (simp add: is_int64_def)

lemma is_int64_exact:
  assumes "rat_of_int \<lfloor>m\<rfloor> = m" "\<bar>m\<bar> \<le> 2 ^ 53"
  shows "is_int64 m"
proof -
  have "- (2 ^ 63) \<le> - ((2::rat) ^ 53)" by simp
  moreover have "(2::rat) ^ 53 < 2 ^ 63" by simp
  ultimately have "- (2 ^ 63) \<le> m" "m < 2 ^ 63" using assms(2) by linarith+
  then show ?thesis using assms(1) by (simp add: is_int64_def)
qed

lemma compat_score_total:
  assumes "\<not> has_column g ''compat_score''"
    and "list_all (list_all (\<lambda>v. case v of None \<Rightarrow> True
                                    | Some s \<Rightarrow> rat_of_int \<lfloor>s\<rfloor> = s \<and> \<bar>s\<bar> \<le> 2 ^ 53)) (cells M)"
    and "text_column (column g lu)" "text_index (row_labels M)"
  shows "\<exists>cs. compat_score lib d g lu M = Inr cs"
proof -
  let ?raw = "raw_scores lib d g lu M"
  have "is_int64 (fillna 5 (map_option to_float64 x))" if "x \<in> set ?raw" for x
  proof (cases x)
    case None
    then show ?thesis by (simp add: fillna_def is_int64_5)
  next
    case (Some m)
    then have "Some m \<in> set ?raw" using that by simp
    then have "\<exists>row\<in>set (cells M). Some m \<in> set row" by (rule raw_scores_cell)
    then obtain row where "row \<in> set (cells M)" "Some m \<in> set row" by blast
    then have m: "rat_of_int \<lfloor>m\<rfloor> = m \<and> \<bar>m\<bar> \<le> 2 ^ 53"
      using assms(2) by (fastforce simp: list_all_iff)
    then have "to_float64 m = m" by (simp add: to_float64_exact)
    moreover have "is_int64 m" using m by (simp add: is_int64_exact)
    ultimately show ?thesis using Some by (simp add: fillna_def)
  qed
  then have a: "list_all is_int64 (map (fillna 5) (map (map_option to_float64) ?raw))"
    by (simp add: list_all_iff)
  have k: "\<not> incompatible_keys (column g lu) (row_labels M)"
    using assms(3,4) by (simp add: incompatible_keys_def)
  have "astype_Int64 (map (fillna 5) (map (map_option to_float64) ?raw)) =
          Inr (map floor (map (fillna 5) (map (map_option to_float64) ?raw)))"
    unfolding astype_Int64_def using a by (rule if_P)
  then show ?thesis
    unfolding compat_score_unfold using assms(1) k by (simp del: map_map)
qed

lemma run_analysis_loaded:
  assumes "has_column g lu"
  shows "run_analysis lib (Some g) (Some M) lu d =
     (case compat_score lib d (with_unique_id (snd (check_crs lib g))) lu M of
        Inl e \<Rightarrow>
          (Stage 1 # fst (check_crs lib g) @ [Stage 2, Stage 3, Stage 4] @
             (if e = ValueError then [] else [Stage 5]), Raised e)
      | Inr scores \<Rightarrow>
          (Stage 1 # fst (check_crs lib g) @ [Stage 2, Stage 3, Stage 4, Stage 5],
           Completed \<lparr>scored_parcels =
                       drop_column (add_column (with_unique_id (snd (check_crs lib g)))
                                      ''compat_score'' (map VInt scores)) ''unique_id'',
                     summaries = generate_reports
                       (drop_column (add_column (with_unique_id (snd (check_crs lib g)))
                                      ''compat_score'' (map VInt scores)) ''unique_id'') lu\<rparr>))"
  using assms
  by (simp add: run_analysis_def Let_def split_beta split: sum.splits)

subsection \<open>The run as a whole\<close>



lemma geometry_scored:
  "geometry (drop_column (add_column (with_unique_id g) name vs) name') = geometry g"
  by (simp add: drop_column_def add_column_def with_unique_id_def)

lemma crs_scored:
  "crs (drop_column (add_column (with_unique_id g) name vs) name') = crs g"
  by (simp add: drop_column_def add_column_def with_unique_id_def)

lemma run_analysis_completed:
  assumes "run_analysis lib (Some g) (Some M) lu d = (ev, Completed art)"
  shows "has_column g lu"
    and "\<exists>cs. compat_score lib d (with_unique_id (snd (check_crs lib g))) lu M = Inr cs \<and>
              scored_parcels art =
                drop_column (add_column (with_unique_id (snd (check_crs lib g)))
                               ''compat_score'' (map VInt cs)) ''unique_id''"
proof -
  show h: "has_column g lu"
    using assms by (auto simp: run_analysis_def split: if_splits)
  show "\<exists>cs. compat_score lib d (with_unique_id (snd (check_crs lib g))) lu M = Inr cs \<and>
              scored_parcels art =
                drop_column (add_column (with_unique_id (snd (check_crs lib g)))
                               ''compat_score'' (map VInt cs)) ''unique_id''"
    using assms unfolding run_analysis_loaded[OF h]
    by (cases "compat_score lib d (with_unique_id (snd (check_crs lib g))) lu M") auto
qed

subsection \<open>The scored frame\<close>

lemma columns_scored:
  assumes "\<not> has_column g ''unique_id''"
  shows "columns (drop_column (add_column (with_unique_id g) ''compat_score'' vs) ''unique_id'') =
           columns g @ [(''compat_score'', vs)]"
proof -
  have "filter (\<lambda>(n, vs). n \<noteq> ''unique_id'') (columns g) = columns g"
    using assms by (force simp: has_column_def filter_id_conv)
  then show ?thesis
    using assms by (simp add: drop_column_def add_column_def with_unique_id_def)
qed

lemma length_check_crs: "length (geometry (snd (check_crs lib g))) = length (geometry g)"
  by (simp add: check_crs_def Let_def split: option.splits)

lemma length_compat_score:
  assumes "\<not> has_column g ''unique_id''"
    and "compat_score lib d (with_unique_id g) lu M = Inr cs"
  shows "length cs = length (geometry g)"
proof -
  have "length (raw_scores lib d (with_unique_id g) lu M) =
          length (column (with_unique_id g) ''unique_id'')"
    by (simp add: raw_scores_def Let_def)
  then have "length (raw_scores lib d (with_unique_id g) lu M) = length (geometry g)"
    by (simp add: uid_column[OF assms(1)])
  then show ?thesis using compat_score_Inr(2)[OF assms(2)] by simp
qed

lemma check_crs_projected:
  "\<forall>c. crs g = Some c \<longrightarrow> \<not> is_geographic c \<Longrightarrow> snd (check_crs lib g) = g"
  by (simp add: check_crs_def split: option.splits)

subsection \<open>The shape of the reports\<close>

lemma map_insort_key: "map f (insort_key f x xs) = insort (f x) (map f xs)"
  by (induction xs) auto

lemma map_sort_key: "map f (sort_key f xs) = sort (map f xs)"
  by (induction xs) (auto simp: map_insort_key)

lemma fst_fold_ensure_column:
  "set (map fst (fold (ensure_column n) xs t)) = set (map fst t) \<union> set xs"
proof (induction xs arbitrary: t)
  case Nil
  then show ?case by simp
next
  case (Cons x xs)
  have "set (map fst (ensure_column n x t)) = insert x (set (map fst t))"
    by (auto simp: ensure_column_def)
  then show ?case using Cons.IH[of "ensure_column n x t"] by auto
qed

lemma distinct_fold_ensure_column:
  "distinct (map fst t) \<Longrightarrow> distinct (map fst (fold (ensure_column n) xs t))"
proof (induction xs arbitrary: t)
  case Nil
  then show ?case by simp
next
  case (Cons x xs)
  have "distinct (map fst (ensure_column n x t))"
    using Cons.prems by (auto simp: ensure_column_def)
  then show ?case using Cons.IH[of "ensure_column n x t"] by simp
qed

lemma columns_fold_ensure_column:
  assumes "(s, col) \<in> set (fold (ensure_column n) xs t)"
    and "\<And>s col. (s, col) \<in> set t \<Longrightarrow> col = F s"
    and "\<And>s. s \<in> set xs \<Longrightarrow> s \<notin> set (map fst t) \<Longrightarrow> replicate n 0 = F s"
  shows "col = F s"
  using assms
proof (induction xs arbitrary: t)
  case Nil
  then show ?case by simp
next
  case (Cons x xs)
  let ?t = "ensure_column n x t"
  have a: "col' = F s'" if "(s', col') \<in> set ?t" for s' col'
  proof (cases "x \<in> set (map fst t)")
    case True
    then have "?t = t" by (simp add: ensure_column_def)
    then show ?thesis using that Cons.prems(2) by simp
  next
    case False
    then have "?t = t @ [(x, replicate n 0)]" by (simp add: ensure_column_def)
    then have "(s', col') \<in> set t \<or> (s' = x \<and> col' = replicate n 0)" using that by auto
    then show ?thesis using Cons.prems(2) Cons.prems(3)[of x] False by auto
  qed
  have b: "replicate n 0 = F s'" if "s' \<in> set xs" "s' \<notin> set (map fst ?t)" for s'
  proof -
    have "set (map fst t) \<subseteq> set (map fst ?t)" by (auto simp: ensure_column_def)
    then have "s' \<notin> set (map fst t)" using that(2) by blast
    then show ?thesis using Cons.prems(3)[of s'] that(1) by simp
  qed
  have "(s, col) \<in> set (fold (ensure_column n) xs ?t)" using Cons.prems(1) by simp
  then show ?case using Cons.IH[of ?t] a b by blast
qed

lemma columns_as_map:
  assumes "\<And>s col. (s, col) \<in> set t \<Longrightarrow> col = F s"
  shows "t = map (\<lambda>s. (s, F s)) (map fst t)"
  using assms by (induction t) auto

lemma detailed_summary_unfold:
  "detailed_summary uses scores =
     (let keys = filter (\<lambda>(c, s). c \<noteq> VNull) (zip uses scores);
          rows = group_keys (map fst keys);
          t = sort_key fst (fold (ensure_column (length rows)) [1..5]
                (map (\<lambda>s. (s, map (\<lambda>c. count_list keys (c, s)) rows))
                     (sort (remdups (map snd keys)))))
      in \<lparr>land_uses = rows, score_columns = t,
          total_parcels = map (\<lambda>i. sum_list (map (\<lambda>(s, col). col ! i) t)) [0..<length rows]\<rparr>)"
  by (simp add: detailed_summary_def unstack_def Let_def)

lemma detailed_summary_columns:
  fixes uses scores
  defines "keys \<equiv> filter (\<lambda>(c, s). c \<noteq> VNull) (zip uses scores)"
  defines "labels \<equiv> map fst (score_columns (detailed_summary uses scores))"
  shows "sorted labels" and "distinct labels"
    and "set labels = {1, 2, 3, 4, 5} \<union> snd ` set keys"
    and "score_columns (detailed_summary uses scores) =
           map (\<lambda>s. (s, map (\<lambda>c. count_list keys (c, s))
                               (land_uses (detailed_summary uses scores)))) labels"
    and "length (total_parcels (detailed_summary uses scores)) =
           length (land_uses (detailed_summary uses scores))"
proof -
  define rows where "rows = group_keys (map fst keys)"
  define F where "F = (\<lambda>s. map (\<lambda>c. count_list keys (c, s)) rows)"
  define t0 where "t0 = map (\<lambda>s. (s, F s)) (sort (remdups (map snd keys)))"
  define t1 where "t1 = fold (ensure_column (length rows)) [1..5] t0"
  have lu: "land_uses (detailed_summary uses scores) = rows"
    unfolding detailed_summary_unfold rows_def keys_def by (simp add: Let_def)
  have sc: "score_columns (detailed_summary uses scores) = sort_key fst t1"
    unfolding detailed_summary_unfold t1_def t0_def F_def rows_def keys_def by (simp add: Let_def)
  have tp: "length (total_parcels (detailed_summary uses scores)) = length rows"
    unfolding detailed_summary_unfold rows_def keys_def by (simp add: Let_def)
  have l: "labels = sort (map fst t1)"
    unfolding labels_def sc by (rule map_sort_key)
  have f0: "map fst t0 = sort (remdups (map snd keys))"
    unfolding t0_def by (simp add: comp_def)
  have u15: "set [1..5] = {1, 2, 3, 4, (5::int)}" by code_simp
  show "sorted labels" unfolding l by simp
  show "distinct labels"
    unfolding l t1_def using distinct_fold_ensure_column[of t0] f0 by simp
  show "set labels = {1, 2, 3, 4, 5} \<union> snd ` set keys"
    unfolding l t1_def using fst_fold_ensure_column[of "length rows" "[1..5]" t0] f0 u15 by auto
  have c0: "col = F s" if "(s, col) \<in> set t0" for s col
    using that unfolding t0_def by auto
  have z: "replicate (length rows) 0 = F s" if "s \<notin> set (map fst t0)" for s
  proof -
    have "(c, s) \<notin> set keys" for c using that unfolding f0 by force
    then have "count_list keys (c, s) = 0" for c by (simp add: count_list_0_iff)
    then show ?thesis unfolding F_def by (simp add: map_replicate_const)
  qed
  have c1: "col = F s" if "(s, col) \<in> set t1" for s col
  proof -
    have m: "(s, col) \<in> set (fold (ensure_column (length rows)) [1..5] t0)"
      using that unfolding t1_def .
    show ?thesis by (rule columns_fold_ensure_column[OF m c0 z])
  qed
  have "col = F s" if "(s, col) \<in> set (sort_key fst t1)" for s col
    using that c1 by simp
  then have "sort_key fst t1 = map (\<lambda>s. (s, F s)) (map fst (sort_key fst t1))"
    by (rule columns_as_map)
  then show "score_columns (detailed_summary uses scores) =
           map (\<lambda>s. (s, map (\<lambda>c. count_list keys (c, s))
                               (land_uses (detailed_summary uses scores)))) labels"
    unfolding labels_def sc lu F_def .
  show "length (total_parcels (detailed_summary uses scores)) =
           length (land_uses (detailed_summary uses scores))"
    unfolding lu by (rule tp)
qed

lemma overall_summary_counts:
  "map (\<lambda>(k, c, p). (k, c)) (overall_summary scores) =
     map (\<lambda>k. (k, count_list scores k)) [1, 2, 3, 4, 5]"
proof -
  define total where "total = sum_list (map snd (value_counts scores))"
  define G where "G = (\<lambda>v. (count_list scores v,
                              (of_nat (count_list scores v) :: rat) / of_nat total * 100))"
  define ks where "ks = sort (remdups scores)"
  have wp: "map (\<lambda>(v, c). (v, c, of_nat c / of_nat total * 100)) (value_counts scores) =
              map (\<lambda>v. (v, G v)) ks"
    unfolding value_counts_def G_def ks_def by simp
  have m: "map_of (map (\<lambda>v. (v, G v)) ks) k = (if k \<in> set scores then Some (G k) else None)" for k
    unfolding map_of_map_restrict ks_def by (simp add: restrict_map_def)
  have c: "fst (case map_of (map (\<lambda>v. (v, G v)) ks) k of None \<Rightarrow> (0, 0) | Some r \<Rightarrow> r) =
             count_list scores k" for k
    unfolding m by (simp add: G_def count_list_0_iff)
  have u: "[1..5] = [1, 2, 3, 4, (5::int)]" by code_simp
  have "overall_summary scores =
          map (\<lambda>i. (i, case map_of (map (\<lambda>v. (v, G v)) ks) i of None \<Rightarrow> (0, 0) | Some r \<Rightarrow> r))
              [1, 2, 3, 4, 5]"
    unfolding overall_summary_def Let_def reindex_def total_def[symmetric] wp u ..
  then show ?thesis
    using c by (simp add: split_beta)
qed

subsection \<open>The score column of a completed run\<close>

lemma map_of_filter_key:
  "P k \<Longrightarrow> map_of (filter (\<lambda>(n, v). P n) xs) k = map_of xs k"
  by (induction xs) auto

lemma column_scored:
  assumes "\<not> has_column g ''compat_score''"
  shows "column (drop_column (add_column g ''compat_score'' vs) ''unique_id'') ''compat_score'' = vs"
proof -
  have n: "map_of (columns g) ''compat_score'' = None"
    using assms by (simp add: has_column_def map_of_eq_None_iff)
  have "map_of (filter (\<lambda>(n, v). n \<noteq> ''unique_id'') (columns g @ [(''compat_score'', vs)]))
          ''compat_score'' = map_of (columns g @ [(''compat_score'', vs)]) ''compat_score''"
    by (rule map_of_filter_key) simp
  also have "\<dots> = Some vs" using n by (simp add: map_add_def)
  finally show ?thesis by (simp add: column_def drop_column_def add_column_def)
qed

lemma run_analysis_scores:
  assumes "run_analysis lib (Some g) (Some M) lu d = (ev, Completed art)"
  shows "\<exists>cs. compat_score lib d (with_unique_id (snd (check_crs lib g))) lu M = Inr cs \<and>
              column (scored_parcels art) ''compat_score'' = map VInt cs"
proof -
  obtain cs where cs: "compat_score lib d (with_unique_id (snd (check_crs lib g))) lu M = Inr cs"
    and sp: "scored_parcels art =
               drop_column (add_column (with_unique_id (snd (check_crs lib g)))
                              ''compat_score'' (map VInt cs)) ''unique_id''"
    using run_analysis_completed(2)[OF assms] by blast
  have "\<not> has_column (with_unique_id (snd (check_crs lib g))) ''compat_score''"
    by (rule compat_score_Inr(1)[OF cs])
  then have "column (scored_parcels art) ''compat_score'' = map VInt cs"
    unfolding sp by (rule column_scored)
  then show ?thesis using cs by blast
qed

subsection \<open>Both directions of a pair\<close>

text \<open>
  The join of line 180 tests every ordered pair of rows and line 181 drops a pair and its
  reverse together, so the pairs found are symmetric as far as the test of the geometric
  library is. With the buffer and the test of the design the test is symmetric, since
  the distance of two points is.
\<close>

lemma adjacent_pairs_symmetric_if:
  assumes "\<And>a b. intersects lib a (buffer lib d b) = intersects lib b (buffer lib d a)"
    and "(u, c, u') \<in> set (adjacent_pairs lib d rows)"
  shows "\<exists>c'. (u', c', u) \<in> set (adjacent_pairs lib d rows)"
proof -
  from assms(2) obtain g c' g' where
    "(u, c, g) \<in> set rows" "(u', c', g') \<in> set rows"
    "intersects lib g (buffer lib d g')" "u \<noteq> u'"
    unfolding in_adjacent_pairs_iff by blast
  then have "(u', c', u) \<in> set (adjacent_pairs lib d rows)"
    unfolding in_adjacent_pairs_iff using assms(1) by blast
  then show ?thesis by blast
qed

lemma minkowski_symmetric:
  "regions_intersect A (minkowski_buffer d B) = regions_intersect B (minkowski_buffer d A)"
proof -
  have "(\<exists>x. x \<in> P \<and> (\<exists>a. a \<in> Q \<and> dist a x \<le> d)) \<Longrightarrow>
        (\<exists>x. x \<in> Q \<and> (\<exists>a. a \<in> P \<and> dist a x \<le> d))" for P Q :: "'a set"
  proof -
    assume "\<exists>x. x \<in> P \<and> (\<exists>a. a \<in> Q \<and> dist a x \<le> d)"
    then obtain x a where "x \<in> P" "a \<in> Q" "dist a x \<le> d" by blast
    then have "a \<in> Q \<and> x \<in> P \<and> dist x a \<le> d" by (simp add: dist_commute)
    then show ?thesis by blast
  qed
  then show ?thesis
    unfolding regions_intersect_def minkowski_buffer_def mem_Collect_eq by blast
qed

lemma spec_geometry_symmetric:
  "intersects (spec_geometry lib) a (buffer (spec_geometry lib) d b) =
   intersects (spec_geometry lib) b (buffer (spec_geometry lib) d a)"
  unfolding spec_geometry_def by (simp add: minkowski_symmetric)

section \<open>The claims\<close>

subsection \<open>Scoring and aggregation\<close>

text \<open>
  Claim C1, as the code has it. A parcel that is the left member of at least one adjacency pair with a
  resolved score gets the minimum of the resolved scores of its pairs as its
  \<open>compat_score\<close>; the unresolved pairs take no part in the minimum. The identifiers
  of the parcels are unique and not missing, and the resolved scores are of magnitude
  at most \<open>2 ^ 53\<close>, the numbers that a float64 column keeps as they are: the score
  column is float64 as soon as one parcel has no score, and a larger integer is then
  rounded to the nearest float64.
\<close>

theorem C1_minimum_of_resolved_scores:
  assumes "unique_ids g" "lu \<noteq> ''unique_id''"
    and "length (column g lu) = length (geometry g)"
    and "compat_score lib d (with_unique_id g) lu M = Inr cs"
    and "i < length (geometry g)"
    and "resolved_scores lib d g lu M i \<noteq> []"
    and "list_all (\<lambda>s. \<bar>s\<bar> \<le> 2 ^ 53) (resolved_scores lib d g lu M i)"
  shows "rat_of_int (cs ! i) = Min (set (resolved_scores lib d g lu M i))"
proof -
  let ?rs = "resolved_scores lib d g lu M i"
  have "Min (set ?rs) \<in> set ?rs" using assms(6) by (simp add: Min_in)
  then have b: "\<bar>Min (set ?rs)\<bar> \<le> 2 ^ 53" using assms(7) by (simp add: list_all_iff)
  have r: "fillna 5 (raw_scores lib d (with_unique_id g) lu M ! i) = Min (set ?rs)"
    using assms(6) by (simp add: raw_scores_resolved[OF assms(1,2,3,5)] fillna_def)
  show ?thesis
    using compat_score_nth(2)[OF assms(1,2,4,5)] b unfolding r by simp
qed

theorem C1_witness:
  "resolved_scores line_lib 0.1 ex_parcels ''use'' ex_matrix 0 = [5, 3, 4] \<and>
   resolved_scores line_lib 0.1 ex_parcels ''use'' ex_matrix 1 = [2] \<and>
   neighbours line_lib 0.1 ex_parcels 1 = [0, 4] \<and>
   compat_score line_lib 0.1 (with_unique_id ex_parcels) ''use'' ex_matrix = Inr [3, 2, 5, 1, 5, 5] \<and>
   rat_of_int ([3, 2, 5, 1, 5, 5] ! 0) = Min (set [5, 3, 4]) \<and>
   rat_of_int ([3, 2, 5, 1, 5, 5] ! 1) = Min (set [2])"
proof -
  have h1: "unique_ids ex_parcels" by code_simp
  have h2: "''use'' \<noteq> ''unique_id''" by simp
  have h3: "length (column ex_parcels ''use'') = length (geometry ex_parcels)" by code_simp
  have h4: "compat_score line_lib 0.1 (with_unique_id ex_parcels) ''use'' ex_matrix = Inr [3, 2, 5, 1, 5, 5]"
    by code_simp
  have i0: "0 < length (geometry ex_parcels)" by code_simp
  have i1: "1 < length (geometry ex_parcels)" by code_simp
  have r0: "resolved_scores line_lib 0.1 ex_parcels ''use'' ex_matrix 0 = [5, 3, 4]" by code_simp
  have r1: "resolved_scores line_lib 0.1 ex_parcels ''use'' ex_matrix 1 = [2]" by code_simp
  have n1: "neighbours line_lib 0.1 ex_parcels 1 = [0, 4]" by code_simp
  have b0: "list_all (\<lambda>s. \<bar>s\<bar> \<le> 2 ^ 53) [5, 3, 4 :: rat]" by simp
  have b1: "list_all (\<lambda>s. \<bar>s\<bar> \<le> 2 ^ 53) [2 :: rat]" by simp
  have a: "rat_of_int ([3, 2, 5, 1, 5, 5] ! 0) = Min (set [5, 3, 4])"
    using C1_minimum_of_resolved_scores[OF h1 h2 h3 h4 i0] b0 unfolding r0 by simp
  have b: "rat_of_int ([3, 2, 5, 1, 5, 5] ! 1) = Min (set [2])"
    using C1_minimum_of_resolved_scores[OF h1 h2 h3 h4 i1] b1 unfolding r1 by simp
  show ?thesis using r0 r1 n1 h4 a b by blast
qed

theorem C1_counterexample:
  "unique_ids three_parcels \<and>
   resolved_scores line_lib 0.1 three_parcels ''use'' (huge_matrix (2 ^ 53 + 1)) 0 =
     [9007199254740993] \<and>
   compat_score line_lib 0.1 (with_unique_id three_parcels) ''use'' (huge_matrix (2 ^ 53 + 1)) =
     Inr [9007199254740992, 2, 5] \<and>
   rat_of_int ([9007199254740992, 2, 5] ! 0) \<noteq> Min (set [9007199254740993])"
  by code_simp

text \<open>
  Claim C2. A parcel without any adjacency pair, and a parcel all of whose adjacency
  pairs are unresolved, get the same \<open>compat_score\<close>: 5.
\<close>

theorem C2_default_score:
  assumes "unique_ids g" "lu \<noteq> ''unique_id''"
    and "length (column g lu) = length (geometry g)"
    and "compat_score lib d (with_unique_id g) lu M = Inr cs"
    and "i < length (geometry g)"
    and "neighbours lib d g i = [] \<or>
         list_all (\<lambda>j. lookup (matrix_long M) (column g lu ! i) (column g lu ! j) = [])
                  (neighbours lib d g i)"
  shows "cs ! i = 5"
proof -
  have "resolved_scores lib d g lu M i = []"
    using assms(6) by (auto simp: resolved_scores_def list_all_iff)
  then have "rat_of_int (cs ! i) = 5"
    using compat_score_nth(2)[OF assms(1,2,4,5)]
    by (simp add: raw_scores_resolved[OF assms(1,2,3,5)] fillna_def)
  then show ?thesis by (metis of_int_eq_numeral_iff)
qed

theorem C2_witness:
  "neighbours line_lib 0.1 ex_parcels 5 = [] \<and>
   neighbours line_lib 0.1 ex_parcels 4 = [1] \<and>
   lookup (matrix_long ex_matrix) (column ex_parcels ''use'' ! 4) (column ex_parcels ''use'' ! 1) = [] \<and>
   compat_score line_lib 0.1 (with_unique_id ex_parcels) ''use'' ex_matrix = Inr [3, 2, 5, 1, 5, 5] \<and>
   [3, 2, 5, 1, 5, 5] ! 5 = (5::int) \<and> [3, 2, 5, 1, 5, 5] ! 4 = (5::int)"
proof -
  have h1: "unique_ids ex_parcels" by code_simp
  have h2: "''use'' \<noteq> ''unique_id''" by simp
  have h3: "length (column ex_parcels ''use'') = length (geometry ex_parcels)" by code_simp
  have h4: "compat_score line_lib 0.1 (with_unique_id ex_parcels) ''use'' ex_matrix = Inr [3, 2, 5, 1, 5, 5]"
    by code_simp
  have i5: "5 < length (geometry ex_parcels)" by code_simp
  have i4: "4 < length (geometry ex_parcels)" by code_simp
  have n5: "neighbours line_lib 0.1 ex_parcels 5 = []" by code_simp
  have n4: "neighbours line_lib 0.1 ex_parcels 4 = [1]" by code_simp
  have l4: "lookup (matrix_long ex_matrix) (column ex_parcels ''use'' ! 4) (column ex_parcels ''use'' ! 1) = []"
    by code_simp
  have a: "[3, 2, 5, 1, 5, 5] ! 5 = (5::int)"
    using C2_default_score[OF h1 h2 h3 h4 i5] n5 by simp
  have b: "[3, 2, 5, 1, 5, 5] ! 4 = (5::int)"
    using C2_default_score[OF h1 h2 h3 h4 i4] n4 l4 by simp
  show ?thesis using n5 n4 l4 h4 a b by blast
qed




text \<open>
  Claim C10. A blank cell of the matrix is no score: when every cell the matrix has for
  a pair of land uses is blank, the lookup of the pair is unresolved, as for a pair the
  matrix does not have; and a parcel all of whose pairs are in that case gets 5.
\<close>

theorem C10_blank_cell_unresolved:
  assumes "unique_ids g" "lu \<noteq> ''unique_id''"
    and "length (column g lu) = length (geometry g)"
    and "compat_score lib d (with_unique_id g) lu M = Inr cs"
    and "i < length (geometry g)"
    and "\<forall>j\<in>set (neighbours lib d g i). \<forall>r c.
            r < length (row_labels M) \<and> r < length (cells M) \<and>
            c < length (col_labels M) \<and> c < length (cells M ! r) \<and>
            row_labels M ! r = column g lu ! i \<and> VStr (col_labels M ! c) = column g lu ! j
            \<longrightarrow> cells M ! r ! c = None"
  shows "(\<forall>j\<in>set (neighbours lib d g i).
            lookup (matrix_long M) (column g lu ! i) (column g lu ! j) = []) \<and> cs ! i = 5"
proof -
  have l: "\<forall>j\<in>set (neighbours lib d g i).
            lookup (matrix_long M) (column g lu ! i) (column g lu ! j) = []"
  proof
    fix j assume j: "j \<in> set (neighbours lib d g i)"
    show "lookup (matrix_long M) (column g lu ! i) (column g lu ! j) = []"
      by (rule lookup_blank) (use assms(6) j in blast)
  qed
  then have "resolved_scores lib d g lu M i = []"
    by (simp add: resolved_scores_def)
  then have "rat_of_int (cs ! i) = 5"
    using compat_score_nth(2)[OF assms(1,2,4,5)]
    by (simp add: raw_scores_resolved[OF assms(1,2,3,5)] fillna_def)
  then have "cs ! i = 5" by (metis of_int_eq_numeral_iff)
  then show ?thesis using l by blast
qed

theorem C10_witness:
  "neighbours line_lib 0.1 ex_parcels 2 = [0] \<and>
   column ex_parcels ''use'' ! 2 = row_labels ex_matrix ! 2 \<and>
   VStr (col_labels ex_matrix ! 0) = column ex_parcels ''use'' ! 0 \<and>
   cells ex_matrix ! 2 ! 0 = None \<and>
   lookup (matrix_long ex_matrix) (column ex_parcels ''use'' ! 2) (column ex_parcels ''use'' ! 0) = [] \<and>
   compat_score line_lib 0.1 (with_unique_id ex_parcels) ''use'' ex_matrix = Inr [3, 2, 5, 1, 5, 5] \<and>
   [3, 2, 5, 1, 5, 5] ! 2 = (5::int)"
proof -
  have h1: "unique_ids ex_parcels" by code_simp
  have h2: "''use'' \<noteq> ''unique_id''" by simp
  have h3: "length (column ex_parcels ''use'') = length (geometry ex_parcels)" by code_simp
  have h4: "compat_score line_lib 0.1 (with_unique_id ex_parcels) ''use'' ex_matrix = Inr [3, 2, 5, 1, 5, 5]"
    by code_simp
  have i2: "2 < length (geometry ex_parcels)" by code_simp
  have n2: "neighbours line_lib 0.1 ex_parcels 2 = [0]" by code_simp
  have c2: "column ex_parcels ''use'' ! 2 = row_labels ex_matrix ! 2" by code_simp
  have c0: "VStr (col_labels ex_matrix ! 0) = column ex_parcels ''use'' ! 0" by code_simp
  have d: "distinct (row_labels ex_matrix)" by code_simp
  have len: "2 < length (row_labels ex_matrix)" by code_simp
  have row2: "cells ex_matrix ! 2 = [None, None, None, None]" by code_simp
  have blank: "cells ex_matrix ! r ! c = None"
    if "r < length (row_labels ex_matrix)" "c < length (cells ex_matrix ! r)"
       "row_labels ex_matrix ! r = column ex_parcels ''use'' ! 2" for r c
  proof -
    have "r = 2" using that(1,3) d len unfolding c2 by (simp add: nth_eq_iff_index_eq)
    then have "cells ex_matrix ! r ! c \<in> set [None, None, None, None]"
      using that(2) row2 by (metis nth_mem)
    then show ?thesis by simp
  qed
  have h6: "\<forall>j\<in>set (neighbours line_lib 0.1 ex_parcels 2). \<forall>r c.
            r < length (row_labels ex_matrix) \<and> r < length (cells ex_matrix) \<and>
            c < length (col_labels ex_matrix) \<and> c < length (cells ex_matrix ! r) \<and>
            row_labels ex_matrix ! r = column ex_parcels ''use'' ! 2 \<and>
            VStr (col_labels ex_matrix ! c) = column ex_parcels ''use'' ! j
            \<longrightarrow> cells ex_matrix ! r ! c = None"
    using blank by blast
  have b: "cells ex_matrix ! 2 ! 0 = None" by code_simp
  have r: "(\<forall>j\<in>set (neighbours line_lib 0.1 ex_parcels 2).
            lookup (matrix_long ex_matrix) (column ex_parcels ''use'' ! 2)
              (column ex_parcels ''use'' ! j) = []) \<and> [3, 2, 5, 1, 5, 5] ! 2 = (5::int)"
    by (rule C10_blank_cell_unresolved[OF h1 h2 h3 h4 i2 h6])
  then have "lookup (matrix_long ex_matrix) (column ex_parcels ''use'' ! 2)
              (column ex_parcels ''use'' ! 0) = []"
    unfolding n2 by simp
  then show ?thesis using n2 c2 c0 b h4 r by blast
qed

subsection \<open>Adjacency\<close>

text \<open>
  Claim C4. With the buffer and the intersection test of the design (sections 4.1 and
  4.2), the pairs the neighbour finder keeps are symmetric: the pair of two parcels is
  found in one direction exactly when it is found in the other, although one direction
  tests the first geometry against the buffer of the second and the other direction the
  second against the buffer of the first.
\<close>

theorem C4_adjacency_symmetric:
  "(\<exists>c. (u, c, u') \<in> set (adjacent_pairs (spec_geometry lib) d rows)) \<longleftrightarrow>
   (\<exists>c. (u', c, u) \<in> set (adjacent_pairs (spec_geometry lib) d rows))"
proof
  assume "\<exists>c. (u, c, u') \<in> set (adjacent_pairs (spec_geometry lib) d rows)"
  then obtain c where "(u, c, u') \<in> set (adjacent_pairs (spec_geometry lib) d rows)" by blast
  then show "\<exists>c. (u', c, u) \<in> set (adjacent_pairs (spec_geometry lib) d rows)"
    by (rule adjacent_pairs_symmetric_if[OF spec_geometry_symmetric])
next
  assume "\<exists>c. (u', c, u) \<in> set (adjacent_pairs (spec_geometry lib) d rows)"
  then obtain c where "(u', c, u) \<in> set (adjacent_pairs (spec_geometry lib) d rows)" by blast
  then show "\<exists>c. (u, c, u') \<in> set (adjacent_pairs (spec_geometry lib) d rows)"
    by (rule adjacent_pairs_symmetric_if[OF spec_geometry_symmetric])
qed

theorem C4_witness:
  "(VInt 0, VStr ''Residential'', VInt 1) \<in> set (adjacent_pairs (spec_geometry no_lib) 0.1 scenario_rows) \<and>
   (\<exists>c. (VInt 1, c, VInt 0) \<in> set (adjacent_pairs (spec_geometry no_lib) 0.1 scenario_rows))"
proof -
  have "(1::real) \<in> {0..1} \<and> (1.05::real) \<in> {1.05..2} \<and> dist (1.05::real) 1 \<le> 0.1"
    by (simp add: dist_real_def)
  then have i: "regions_intersect {0..1::real} (minkowski_buffer 0.1 {1.05..2})"
    unfolding regions_intersect_def minkowski_buffer_def by blast
  have a: "(VInt 0, VStr ''Residential'', VInt 1) \<in>
             set (adjacent_pairs (spec_geometry no_lib) 0.1 scenario_rows)"
    unfolding in_adjacent_pairs_iff using i
    by (auto simp: scenario_rows_def spec_geometry_def)
  then have "\<exists>c. (VInt 0, c, VInt 1) \<in> set (adjacent_pairs (spec_geometry no_lib) 0.1 scenario_rows)"
    by blast
  then have "\<exists>c. (VInt 1, c, VInt 0) \<in> set (adjacent_pairs (spec_geometry no_lib) 0.1 scenario_rows)"
    using C4_adjacency_symmetric[of "VInt 0" "VInt 1" no_lib "0.1" scenario_rows] by blast
  then show ?thesis using a by blast
qed

subsection \<open>Values the matrix may hold\<close>

text \<open>
  Claim C8, as the code has it. With a matrix whose scores are integers of magnitude at
  most \<open>2 ^ 53\<close>, inside the range 1 to 5 or not, with blank cells or not, and whose
  row labels are text, the run of a frame that has the land-use column, of text, and no
  column \<open>compat_score\<close> completes: scoring, aggregation and the reports raise
  nothing. The three conditions are needed: a score that is not an integer, or an
  integer that the float64 column rounds out of the 64 bits, makes the cast of line 214
  raise TypeError, and row labels that are numbers make the merge of line 198 raise
  ValueError.
\<close>

theorem C8_integer_scores_complete:
  assumes "has_column g lu" "\<not> has_column g ''compat_score''"
    and "list_all (list_all (\<lambda>v. case v of None \<Rightarrow> True
                                    | Some s \<Rightarrow> rat_of_int \<lfloor>s\<rfloor> = s \<and> \<bar>s\<bar> \<le> 2 ^ 53)) (cells M)"
    and "lu \<noteq> ''unique_id''"
    and "text_column (column g lu)" "text_index (row_labels M)"
  shows "is_Completed (snd (run_analysis lib (Some g) (Some M) lu d))"
proof -
  let ?g = "with_unique_id (snd (check_crs lib g))"
  have "\<not> has_column ?g ''compat_score''"
    using assms(2) by (simp add: has_column_with_unique_id has_column_check_crs)
  moreover have "column ?g lu = column g lu"
    unfolding other_column[OF assms(4)] by (simp add: column_def check_crs_columns)
  ultimately obtain cs where "compat_score lib d ?g lu M = Inr cs"
    using compat_score_total[OF _ assms(3), of ?g lu lib d] assms(5,6) by auto
  then show ?thesis
    unfolding run_analysis_loaded[OF assms(1)] by simp
qed

theorem C8_witness:
  "has_column two_parcels ''use'' \<and> \<not> has_column two_parcels ''compat_score'' \<and>
   cells wide_matrix = [[None, Some 7], [Some 0, Some (- 3)]] \<and>
   is_Completed (snd (run_analysis line_lib (Some two_parcels) (Some wide_matrix) ''use'' 0.1)) \<and>
   compat_score line_lib 0.1 (with_unique_id two_parcels) ''use'' wide_matrix = Inr [7, 0]"
proof -
  have h1: "has_column two_parcels ''use''" by code_simp
  have h2: "\<not> has_column two_parcels ''compat_score''" by code_simp
  have h3: "list_all (list_all (\<lambda>v. case v of None \<Rightarrow> True
                                        | Some s \<Rightarrow> rat_of_int \<lfloor>s\<rfloor> = s \<and> \<bar>s\<bar> \<le> 2 ^ 53))
              (cells wide_matrix)" by code_simp
  have h4: "''use'' \<noteq> ''unique_id''" by simp
  have h5: "text_column (column two_parcels ''use'')" by code_simp
  have h6: "text_index (row_labels wide_matrix)" by code_simp
  have c: "cells wide_matrix = [[None, Some 7], [Some 0, Some (- 3)]]" by code_simp
  have s: "compat_score line_lib 0.1 (with_unique_id two_parcels) ''use'' wide_matrix = Inr [7, 0]"
    by code_simp
  have "is_Completed (snd (run_analysis line_lib (Some two_parcels) (Some wide_matrix) ''use'' 0.1))"
    by (rule C8_integer_scores_complete[OF h1 h2 h3 h4 h5 h6])
  then show ?thesis using h1 h2 c s by blast
qed

theorem C8_counterexample:
  "cells fractional_matrix = [[Some 5, Some (5 / 2)], [Some 2, Some 5]] \<and>
   run_analysis line_lib (Some two_parcels) (Some fractional_matrix) ''use'' 0.1 =
     ([Stage 1, Stage 2, Stage 3, Stage 4, Stage 5], Raised TypeError) \<and>
   cells (huge_matrix (2 ^ 63 - 1)) = [[Some 5, Some 9223372036854775807], [Some 2, Some 5]] \<and>
   run_analysis line_lib (Some three_parcels) (Some (huge_matrix (2 ^ 63 - 1))) ''use'' 0.1 =
     ([Stage 1, Stage 2, Stage 3, Stage 4, Stage 5], Raised TypeError) \<and>
   row_labels numeric_rows_matrix = [VInt 1, VInt 2] \<and>
   run_analysis line_lib (Some two_parcels) (Some numeric_rows_matrix) ''use'' 0.1 =
     ([Stage 1, Stage 2, Stage 3, Stage 4], Raised ValueError)"
  by code_simp

subsection \<open>Input errors and the coordinate reference system\<close>







subsection \<open>What the run changes in the parcel collection\<close>

text \<open>
  Claim C9, as the code has it. For a parcel collection without a column \<open>unique_id\<close>, the
  scored collection has the attribute columns of the input, unchanged and in their order,
  followed by the one integer column \<open>compat_score\<close> with a value per parcel. The
  geometries and the reference system are those of the input unless the system is
  geographic; then they are the re-projected ones.
\<close>

theorem C9_attributes_preserved:
  assumes "\<not> has_column g ''unique_id''"
    and "run_analysis lib (Some g) (Some M) lu d = (ev, Completed art)"
  shows "(\<exists>cs. length cs = length (geometry g) \<and>
               columns (scored_parcels art) = columns g @ [(''compat_score'', map VInt cs)]) \<and>
         geometry (scored_parcels art) = geometry (snd (check_crs lib g)) \<and>
         crs (scored_parcels art) = crs (snd (check_crs lib g)) \<and>
         ((\<forall>c. crs g = Some c \<longrightarrow> \<not> is_geographic c) \<longrightarrow>
            geometry (scored_parcels art) = geometry g \<and> crs (scored_parcels art) = crs g)"
proof -
  let ?g1 = "snd (check_crs lib g)"
  have nu: "\<not> has_column ?g1 ''unique_id''"
    using assms(1) by (simp add: has_column_check_crs)
  obtain cs where cs: "compat_score lib d (with_unique_id ?g1) lu M = Inr cs"
    and sp: "scored_parcels art =
               drop_column (add_column (with_unique_id ?g1) ''compat_score'' (map VInt cs)) ''unique_id''"
    using run_analysis_completed(2)[OF assms(2)] by blast
  have len: "length cs = length (geometry g)"
    using length_compat_score[OF nu cs] by (simp add: length_check_crs)
  have cols: "columns (scored_parcels art) = columns g @ [(''compat_score'', map VInt cs)]"
    unfolding sp columns_scored[OF nu] by (simp add: check_crs_columns)
  have geo: "geometry (scored_parcels art) = geometry ?g1" "crs (scored_parcels art) = crs ?g1"
    unfolding sp by (simp_all add: geometry_scored crs_scored)
  have same: "geometry (scored_parcels art) = geometry g \<and> crs (scored_parcels art) = crs g"
    if "\<forall>c. crs g = Some c \<longrightarrow> \<not> is_geographic c"
    using geo check_crs_projected[OF that, of lib] by simp
  show ?thesis using len cols geo same by blast
qed

theorem C9_witness:
  "\<not> has_column two_parcels ''unique_id'' \<and>
   run_analysis line_lib (Some two_parcels) (Some directed_matrix) ''use'' 0.1 =
     ([Stage 1, Stage 2, Stage 3, Stage 4, Stage 5], Completed two_parcels_scored) \<and>
   crs two_parcels = Some \<lparr>crs_name = ''WGS 84 / UTM zone 39N'', is_geographic = False\<rparr> \<and>
   (\<exists>cs. length cs = length (geometry two_parcels) \<and>
         columns (scored_parcels two_parcels_scored) =
           columns two_parcels @ [(''compat_score'', map VInt cs)]) \<and>
   geometry (scored_parcels two_parcels_scored) = geometry two_parcels \<and>
   crs (scored_parcels two_parcels_scored) = crs two_parcels"
proof -
  have h1: "\<not> has_column two_parcels ''unique_id''" by code_simp
  have h2: "run_analysis line_lib (Some two_parcels) (Some directed_matrix) ''use'' 0.1 =
     ([Stage 1, Stage 2, Stage 3, Stage 4, Stage 5], Completed two_parcels_scored)"
    by code_simp
  have h3: "\<forall>c. crs two_parcels = Some c \<longrightarrow> \<not> is_geographic c"
    by (simp add: two_parcels_def)
  have h4: "crs two_parcels = Some \<lparr>crs_name = ''WGS 84 / UTM zone 39N'', is_geographic = False\<rparr>"
    by (simp add: two_parcels_def)
  show ?thesis using C9_attributes_preserved[OF h1 h2] h1 h2 h3 h4 by blast
qed

theorem C9_counterexample:
  "geometry geographic_parcels = [(0, 1), (1.05, 2)] \<and>
   run_analysis line_lib (Some geographic_parcels) (Some directed_matrix) ''use'' 0.1 =
     ([Stage 1, Warning_crs_geographic, Stage 2, Stage 3, Stage 4, Stage 5],
      Completed geographic_parcels_scored) \<and>
   geometry (scored_parcels geographic_parcels_scored) = [(500000, 500001), (500001.05, 500002)]"
  by code_simp

text \<open>
  A column \<open>unique_id\<close> that the input supplies is used as the identifier (lines 173-174)
  and then removed with the clean-up of line 217: the scored collection has lost it.
\<close>

lemma supplied_unique_id_is_dropped:
  "has_column id_parcels ''unique_id'' \<and>
   run_analysis line_lib (Some id_parcels) (Some directed_matrix) ''use'' 0.1 =
     ([Stage 1, Stage 2, Stage 3, Stage 4, Stage 5], Completed two_parcels_scored) \<and>
   \<not> has_column (scored_parcels two_parcels_scored) ''unique_id''"
  by code_simp

subsection \<open>The summary reports\<close>

text \<open>
  Claim C5, as the code has it. The overall summary always has exactly the five rows 1 to
  5, each with the number of parcels of that score, 0 when there is none. The detailed
  breakdown has one column for each of the scores 1 to 5 and for each other score that a
  parcel (with a land use) has, in ascending order, filled with the counts, 0 where
  there is no parcel, and a total per land use; the score columns are exactly 1 to 5
  when every score lies in that range.
\<close>

theorem C5_report_shape:
  fixes g :: "'g gdf" and lu :: string
  defines "scores \<equiv> map int_of_val (column g ''compat_score'')"
  defines "keys \<equiv> filter (\<lambda>(c, s). c \<noteq> VNull) (zip (column g lu) scores)"
  defines "labels \<equiv> map fst (score_columns (detailed (generate_reports g lu)))"
  assumes "has_column g lu" "has_column g ''compat_score''"
  shows "map (\<lambda>(k, c, p). (k, c)) (overall (generate_reports g lu)) =
           map (\<lambda>k. (k, count_list scores k)) [1, 2, 3, 4, 5] \<and>
         sorted labels \<and> distinct labels \<and>
         set labels = {1, 2, 3, 4, 5} \<union> snd ` set keys \<and>
         score_columns (detailed (generate_reports g lu)) =
           map (\<lambda>s. (s, map (\<lambda>c. count_list keys (c, s))
                               (land_uses (detailed (generate_reports g lu))))) labels \<and>
         length (total_parcels (detailed (generate_reports g lu))) =
           length (land_uses (detailed (generate_reports g lu))) \<and>
         (set scores \<subseteq> {1, 2, 3, 4, 5} \<longrightarrow> labels = [1, 2, 3, 4, 5])"
proof -
  have o: "overall (generate_reports g lu) = overall_summary scores"
    and d: "detailed (generate_reports g lu) = detailed_summary (column g lu) scores"
    unfolding generate_reports_def scores_def by (simp_all add: Let_def)
  have l: "labels = map fst (score_columns (detailed_summary (column g lu) scores))"
    unfolding labels_def d ..
  note ds = detailed_summary_columns[of "column g lu" scores, folded keys_def l]
  have five: "labels = [1, 2, 3, 4, 5]" if "set scores \<subseteq> {1, 2, 3, 4, 5}"
  proof -
    have "snd ` set keys \<subseteq> set scores"
      unfolding keys_def by (auto dest: set_zip_rightD)
    then have "set labels = set [1, 2, 3, 4, 5]" using ds(3) that by auto
    moreover have "sorted [1, 2, 3, 4, (5::int)]" "distinct [1, 2, 3, 4, (5::int)]" by simp_all
    ultimately show ?thesis
      using ds(1,2) by (metis sorted_distinct_set_unique)
  qed
  show ?thesis
    unfolding o d using overall_summary_counts[of scores] ds five
    unfolding l by blast
qed

theorem C5_witness:
  "map int_of_val (column (scored_parcels two_parcels_scored) ''compat_score'') = [1, 2] \<and>
   map (\<lambda>(k, c, p). (k, c)) (overall (generate_reports (scored_parcels two_parcels_scored) ''use'')) =
     [(1, 1), (2, 1), (3, 0), (4, 0), (5, 0)] \<and>
   map fst (score_columns (detailed (generate_reports (scored_parcels two_parcels_scored) ''use''))) =
     [1, 2, 3, 4, 5]"
proof -
  have s: "map int_of_val (column (scored_parcels two_parcels_scored) ''compat_score'') = [1, 2]"
    by code_simp
  have h: "set (map int_of_val (column (scored_parcels two_parcels_scored) ''compat_score''))
             \<subseteq> {1, 2, 3, 4, 5}"
    unfolding s by simp
  have o: "map (\<lambda>(k, c, p). (k, c))
             (overall (generate_reports (scored_parcels two_parcels_scored) ''use'')) =
           [(1, 1), (2, 1), (3, 0), (4, 0), (5, 0)]"
    by code_simp
  have c1: "has_column (scored_parcels two_parcels_scored) ''use''" by code_simp
  have c2: "has_column (scored_parcels two_parcels_scored) ''compat_score''" by code_simp
  show ?thesis
    using C5_report_shape[OF c1 c2] h s o by blast
qed

theorem C5_counterexample:
  "run_analysis line_lib (Some two_parcels) (Some wide_matrix) ''use'' 0.1 =
     ([Stage 1, Stage 2, Stage 3, Stage 4, Stage 5], Completed wide_matrix_scored) \<and>
   map fst (score_columns (detailed (summaries wide_matrix_scored))) = [0, 1, 2, 3, 4, 5, 7] \<and>
   length (score_columns (detailed (summaries wide_matrix_scored))) = 7"
  by code_simp

end
